theory Spec2Isabelle
  imports Main "HOL-Library.Sublist"
begin

section \<open>Python strings\<close>

text \<open>
  A Python \<open>str\<close> is modelled as a \<open>string\<close> (a list of 8-bit characters, read as the
  code points 0..255). The three scripts only ever compare, slice, strip and concatenate
  strings, so the operations below are all that is needed.
\<close>

datatype exn = ValueError | NameError | TypeError | KeyError | AttributeError

abbreviation slash :: char where "slash \<equiv> CHR ''/''"
abbreviation dquote :: char where "dquote \<equiv> CHR 0x22"
abbreviation squote :: char where "squote \<equiv> CHR 0x27"
abbreviation backslash :: char where "backslash \<equiv> CHR 0x5C"
abbreviation LF :: char where "LF \<equiv> CHR 0x0A"
abbreviation CR :: char where "CR \<equiv> CHR 0x0D"
abbreviation TAB :: char where "TAB \<equiv> CHR 0x09"

text \<open>\<open>s.lstrip("/")\<close>\<close>

definition lstrip_slash :: "string \<Rightarrow> string" where
  "lstrip_slash s = dropWhile (\<lambda>c. c = slash) s"

text \<open>\<open>s.startswith(p)\<close>\<close>

definition startswith :: "string \<Rightarrow> string \<Rightarrow> bool" where
  "startswith s p = prefix p s"

text \<open>\<open>c.isspace()\<close> on the code points below 256: 9..13, 28..32, 0x85 and 0xA0.\<close>

definition py_isspace :: "char \<Rightarrow> bool" where
  "py_isspace c =
     (let n = (of_char c :: nat)
      in (9 \<le> n \<and> n \<le> 13) \<or> (28 \<le> n \<and> n \<le> 32) \<or> n = 133 \<or> n = 160)"

text \<open>\<open>s.strip()\<close>\<close>

definition py_strip :: "string \<Rightarrow> string" where
  "py_strip s = rev (dropWhile py_isspace (rev (dropWhile py_isspace s)))"

text \<open>\<open>s.split(sep)\<close> for a one-character separator: at least one piece, empty pieces kept.\<close>

fun split_on :: "char \<Rightarrow> string \<Rightarrow> string list" where
  "split_on d [] = [[]]"
| "split_on d (c # cs) =
     (if c = d then [] # split_on d cs
      else (case split_on d cs of [] \<Rightarrow> [[c]] | w # ws \<Rightarrow> (c # w) # ws))"

text \<open>\<open>sep.join(parts)\<close>\<close>

fun join_with :: "char \<Rightarrow> string list \<Rightarrow> string" where
  "join_with d [] = []"
| "join_with d [w] = w"
| "join_with d (w # v # ws) = w @ d # join_with d (v # ws)"

section \<open>The library's \<open>urlparse\<close>\<close>

text \<open>
  \<open>urllib.parse.urlparse\<close> belongs to Python's standard library (here as of Python
  3.11.10), not to the repository. Both normalizers read only the \<open>path\<close> attribute of
  its result, so the model computes that attribute, following the library's steps in
  their order: leading C0 control characters and spaces are dropped; tab, CR and LF are
  removed everywhere; a scheme is split off at the first colon when everything before it
  is a scheme character and the first character is a letter; after \<open>//\<close> the network
  location runs to the first of \<open>/ ? #\<close> and its brackets are checked; the fragment is
  cut at the first \<open>#\<close>, the query at the first \<open>?\<close>; and for the schemes that take
  parameters the text from the first \<open>;\<close> of the last path segment on is removed.

  The library's last check refuses a network location with a character whose
  compatibility normalization (NFKC) holds one of \<open>/ ? # @ :\<close>. None of the code points
  below 256 has such a normalization, so that check accepts every network location that
  a \<open>string\<close> can hold, and it has no branch here.
\<close>

definition is_ascii_alpha :: "char \<Rightarrow> bool" where
  "is_ascii_alpha c =
     (let n = (of_char c :: nat) in (65 \<le> n \<and> n \<le> 90) \<or> (97 \<le> n \<and> n \<le> 122))"

definition is_ascii_digit :: "char \<Rightarrow> bool" where
  "is_ascii_digit c = (let n = (of_char c :: nat) in 48 \<le> n \<and> n \<le> 57)"

definition scheme_char :: "char \<Rightarrow> bool" where
  "scheme_char c =
     (is_ascii_alpha c \<or> is_ascii_digit c \<or> c = CHR ''+'' \<or> c = CHR ''-'' \<or> c = CHR ''.'')"

definition ascii_lower :: "char \<Rightarrow> char" where
  "ascii_lower c =
     (let n = (of_char c :: nat) in if 65 \<le> n \<and> n \<le> 90 then char_of (n + 32) else c)"

definition c0_or_space :: "char \<Rightarrow> bool" where
  "c0_or_space c = ((of_char c :: nat) \<le> 32)"

definition unsafe_url_byte :: "char \<Rightarrow> bool" where
  "unsafe_url_byte c = (c = TAB \<or> c = CR \<or> c = LF)"

definition uses_params :: "string list" where
  "uses_params =
     ['''', ''ftp'', ''hdl'', ''prospero'', ''http'', ''imap'', ''https'', ''shttp'',
      ''rtsp'', ''rtsps'', ''rtspu'', ''sip'', ''sips'', ''mms'', ''sftp'', ''tel'']"

text \<open>The scheme and the rest: \<open>i = url.find(':')\<close>, \<open>i > 0\<close>, every character scheme-like.\<close>

definition split_scheme :: "string \<Rightarrow> string \<times> string" where
  "split_scheme url =
     (let pre = takeWhile (\<lambda>c. c \<noteq> CHR '':'') url
      in if CHR '':'' \<in> set url \<and> pre \<noteq> [] \<and> is_ascii_alpha (hd pre) \<and> list_all scheme_char pre
         then (map ascii_lower pre, drop (Suc (length pre)) url)
         else ('''', url))"

definition netloc_delim :: "char \<Rightarrow> bool" where
  "netloc_delim c = (c = slash \<or> c = CHR ''?'' \<or> c = CHR ''#'')"

text \<open>
  A host in square brackets is checked with the library's \<open>ipaddress\<close> module. An IPv4
  address is four decimal octets, each of at most three digits, without a leading zero
  and at most 255.
\<close>

definition octet_value :: "string \<Rightarrow> nat" where
  "octet_value s = foldl (\<lambda>acc c. acc * 10 + (of_char c - 48)) 0 s"

definition parse_octet_ok :: "string \<Rightarrow> bool" where
  "parse_octet_ok octet_str =
     (octet_str \<noteq> [] \<and> list_all is_ascii_digit octet_str \<and> length octet_str \<le> 3
      \<and> (if octet_str = ''0'' then True else hd octet_str \<noteq> CHR ''0'')
      \<and> octet_value octet_str \<le> 255)"

definition ipv4_ok :: "string \<Rightarrow> bool" where
  "ipv4_ok addr_str =
     (slash \<notin> set addr_str \<and> addr_str \<noteq> []
      \<and> length (split_on CHR ''.'' addr_str) = 4
      \<and> list_all parse_octet_ok (split_on CHR ''.'' addr_str))"

text \<open>
  An IPv6 address is split at its colons into at least three and at most nine parts. One
  empty part between the first and the last stands for \<open>::\<close>, the run of zero groups left
  out; beside it the first or the last part may be empty only when it belongs to that
  \<open>::\<close>, and at most seven groups may be written. Without it there are exactly eight
  groups. A group has one to four hexadecimal digits. An IPv4 address may stand as the
  last part, taking the place of two groups (whose values do not matter here). A scope
  after \<open>%\<close> must be non-empty and have no further \<open>%\<close>.
\<close>

definition is_hex_digit :: "char \<Rightarrow> bool" where
  "is_hex_digit c =
     (let n = (of_char c :: nat)
      in (48 \<le> n \<and> n \<le> 57) \<or> (65 \<le> n \<and> n \<le> 70) \<or> (97 \<le> n \<and> n \<le> 102))"

definition parse_hextet_ok :: "string \<Rightarrow> bool" where
  "parse_hextet_ok hextet_str =
     (hextet_str \<noteq> [] \<and> list_all is_hex_digit hextet_str \<and> length hextet_str \<le> 4)"

definition ipv6_parts_ok :: "string list \<Rightarrow> bool" where
  "ipv6_parts_ok parts =
     (let n = length parts;
          skips = filter (\<lambda>i. parts ! i = []) [1..<n - 1]
      in if 9 < n then False
         else (case skips of
                 [] \<Rightarrow> n = 8 \<and> list_all parse_hextet_ok parts
               | [skip_index] \<Rightarrow>
                   (let parts_hi = (if hd parts = [] then skip_index - 1 else skip_index);
                        parts_lo = (if last parts = [] then n - skip_index - 1 - 1
                                    else n - skip_index - 1)
                    in (if hd parts = [] then parts_hi = 0 else True)
                       \<and> (if last parts = [] then parts_lo = 0 else True)
                       \<and> parts_hi + parts_lo < 8
                       \<and> list_all parse_hextet_ok (take parts_hi parts)
                       \<and> list_all parse_hextet_ok (drop (n - parts_lo) parts))
               | skip_index # more \<Rightarrow> False))"

definition ipv6_body_ok :: "string \<Rightarrow> bool" where
  "ipv6_body_ok ip_str =
     (if ip_str = [] then False
      else (let parts = split_on CHR '':'' ip_str
            in if length parts < 3 then False
               else if CHR ''.'' \<in> set (last parts)
               then ipv4_ok (last parts) \<and> ipv6_parts_ok (butlast parts @ [''0'', ''0''])
               else ipv6_parts_ok parts))"

definition ipv6_ok :: "string \<Rightarrow> bool" where
  "ipv6_ok addr_str =
     (if slash \<in> set addr_str then False
      else (let addr = takeWhile (\<lambda>c. c \<noteq> CHR ''%'') addr_str;
                scope_id = drop (Suc (length addr)) addr_str
            in if CHR ''%'' \<in> set addr_str \<and> (scope_id = [] \<or> CHR ''%'' \<in> set scope_id)
               then False
               else ipv6_body_ok addr))"

text \<open>
  \<open>_check_bracketed_host\<close>: a host that starts with \<open>v\<close> must read \<open>v\<close>, hexadecimal
  digits, a dot and at least one more character (none of them a line feed); any other
  must be an IPv6 address, an IPv4 address being refused.
\<close>

definition ipvfuture_ok :: "string \<Rightarrow> bool" where
  "ipvfuture_ok hostname =
     (let digits = takeWhile is_hex_digit (tl hostname);
          after = dropWhile is_hex_digit (tl hostname)
      in digits \<noteq> [] \<and> after \<noteq> [] \<and> hd after = CHR ''.'' \<and> tl after \<noteq> []
         \<and> LF \<notin> set (tl after))"

definition check_bracketed_host :: "string \<Rightarrow> bool" where
  "check_bracketed_host hostname =
     (if startswith hostname ''v'' then ipvfuture_ok hostname
      else if ipv4_ok hostname then False
      else ipv6_ok hostname)"

text \<open>
  The network location and the rest. The library raises \<open>ValueError\<close> when the network
  location has one square bracket without the other, and when the text between the first
  \<open>[\<close> and the next \<open>]\<close> is not a host it accepts in brackets.
\<close>

definition bracketed_host :: "string \<Rightarrow> string" where
  "bracketed_host netloc =
     takeWhile (\<lambda>c. c \<noteq> CHR '']'') (tl (dropWhile (\<lambda>c. c \<noteq> CHR ''['') netloc))"

definition split_netloc :: "string \<Rightarrow> exn + (string \<times> string)" where
  "split_netloc url =
     (if take 2 url = ''//''
      then (let r = drop 2 url;
                netloc = takeWhile (\<lambda>c. \<not> netloc_delim c) r;
                rest = dropWhile (\<lambda>c. \<not> netloc_delim c) r
            in if (CHR ''['' \<in> set netloc \<and> CHR '']'' \<notin> set netloc)
                  \<or> (CHR '']'' \<in> set netloc \<and> CHR ''['' \<notin> set netloc)
               then Inl ValueError
               else if CHR ''['' \<in> set netloc \<and> CHR '']'' \<in> set netloc
                       \<and> \<not> check_bracketed_host (bracketed_host netloc)
               then Inl ValueError
               else Inr (netloc, rest))
      else Inr ('''', url))"

text \<open>\<open>_splitparams\<close>: the path without the parameters of its last segment.\<close>

definition splitparams :: "string \<Rightarrow> string" where
  "splitparams url =
     (if slash \<in> set url
      then (let tl_rev = takeWhile (\<lambda>c. c \<noteq> slash) (rev url);
                hd_part = rev (dropWhile (\<lambda>c. c \<noteq> slash) (rev url));
                last_seg = rev tl_rev
            in hd_part @ takeWhile (\<lambda>c. c \<noteq> CHR '';'') last_seg)
      else takeWhile (\<lambda>c. c \<noteq> CHR '';'') url)"

definition urlparse_path :: "string \<Rightarrow> exn + string" where
  "urlparse_path url0 =
     (let url1 = filter (\<lambda>c. \<not> unsafe_url_byte c) (dropWhile c0_or_space url0);
          (scheme, url2) = split_scheme url1
      in case split_netloc url2 of
           Inl e \<Rightarrow> Inl e
         | Inr (netloc, url3) \<Rightarrow>
             (let url4 = takeWhile (\<lambda>c. c \<noteq> CHR ''#'') url3;
                  url5 = takeWhile (\<lambda>c. c \<noteq> CHR ''?'') url4
              in if scheme \<in> set uses_params \<and> CHR '';'' \<in> set url5
                 then Inr (splitparams url5)
                 else Inr url5))"

section \<open>The path normalizer\<close>

text \<open>
  \<open>normalize_relative_path\<close> of \<open>download_data.py\<close>. Its \<open>trim_prefix\<close> is the string that
  \<open>argparse\<close> delivers, so \<open>trim_prefix or ""\<close> is the string itself.
\<close>

definition normalize_relative_path :: "string \<Rightarrow> string \<Rightarrow> exn + string" where
  "normalize_relative_path url trim_prefix =
     (case urlparse_path url of
        Inl e \<Rightarrow> Inl e
      | Inr parsed_path \<Rightarrow>
          (let path = (if parsed_path = '''' then ''/'' else parsed_path);
               rel = lstrip_slash path;
               trim = lstrip_slash (if trim_prefix = '''' then '''' else trim_prefix)
           in if trim \<noteq> '''' \<and> startswith rel trim
              then Inr (lstrip_slash (drop (length trim) rel))
              else Inr rel))"

text \<open>\<open>normalize_relative_path\<close> of \<open>make_wget.py\<close>.\<close>

definition mw_normalize_relative_path :: "string \<Rightarrow> string \<Rightarrow> exn + string" where
  "mw_normalize_relative_path url trim_prefix =
     (case urlparse_path url of
        Inl e \<Rightarrow> Inl e
      | Inr parsed_path \<Rightarrow>
          (let rel = lstrip_slash (if parsed_path = '''' then ''/'' else parsed_path);
               trim = lstrip_slash (if trim_prefix = '''' then '''' else trim_prefix)
           in if trim \<noteq> '''' \<and> startswith rel trim
              then Inr (lstrip_slash (drop (length trim) rel))
              else Inr rel))"

text \<open>
  The normalizer as the specification words it, on the path component: strip any leading
  slash; if the result starts with the slash-stripped trim prefix, remove that prefix and
  any resulting leading slash.
\<close>

definition spec_normalize :: "string \<Rightarrow> string \<Rightarrow> string" where
  "spec_normalize path trim_prefix =
     (let rel = lstrip_slash path; trim = lstrip_slash trim_prefix
      in if startswith rel trim then lstrip_slash (drop (length trim) rel) else rel)"







subsection \<open>Stripping slashes\<close>

lemma lstrip_slash_idem: "lstrip_slash (lstrip_slash s) = lstrip_slash s"
  unfolding lstrip_slash_def by (induction s) auto

lemma lstrip_slash_no_lead: "\<not> startswith (lstrip_slash s) ''/''"
  unfolding lstrip_slash_def startswith_def by (induction s) auto



lemma lstrip_slash_or: "lstrip_slash (if p = [] then ''/'' else p) = lstrip_slash p"
  by (simp add: lstrip_slash_def)

lemma normalize_spec:
  "normalize_relative_path u t =
     (case urlparse_path u of Inl e \<Rightarrow> Inl e | Inr p \<Rightarrow> Inr (spec_normalize p t))"
  by (auto simp: normalize_relative_path_def spec_normalize_def lstrip_slash_or Let_def
      lstrip_slash_idem startswith_def split: sum.splits)


lemma mw_same: "mw_normalize_relative_path u t = normalize_relative_path u t"
  by (simp add: mw_normalize_relative_path_def normalize_relative_path_def Let_def
      split: sum.splits)

subsection \<open>The path component of an http(s) URL\<close>

lemma filter_id_conv: "list_all P xs \<Longrightarrow> filter P xs = xs"
  by (induction xs) auto


lemma takeWhile_all: "list_all P xs \<Longrightarrow> takeWhile P xs = xs"
  by (induction xs) auto

lemma dropWhile_all: "list_all P xs \<Longrightarrow> dropWhile P xs = []"
  by (induction xs) auto


subsection \<open>Splitting and joining\<close>

lemma split_on_no_sep: "d \<notin> set w \<Longrightarrow> split_on d w = [w]"
  by (induction w) auto

lemma split_on_append_sep:
  "d \<notin> set w \<Longrightarrow> split_on d (w @ d # rest) = w # split_on d rest"
  by (induction w) auto

lemma split_on_pieces: "w \<in> set (split_on d s) \<Longrightarrow> d \<notin> set w"
  by (induction s arbitrary: w) (auto split: if_splits list.splits)

lemma split_on_join:
  "ws \<noteq> [] \<Longrightarrow> list_all (\<lambda>w. d \<notin> set w) ws \<Longrightarrow> split_on d (join_with d ws) = ws"
proof (induction d ws rule: join_with.induct)
  case (1 d)
  then show ?case by simp
next
  case (2 d w)
  then show ?case by (simp add: split_on_no_sep)
next
  case (3 d w v ws)
  then show ?case by (simp add: split_on_append_sep)
qed
















subsection \<open>The normalizer's contract\<close>

text \<open>
  C1, as the claim states it, fails in two ways. The path that \<open>urlparse\<close> reports is not
  the whole path of the URL: the parameters of the last segment are cut off, so for
  \<open>https://h/p/a;x\<close> and the trim prefix \<open>/p/\<close>, where the path is the prefix followed by
  \<open>a;x\<close>, the normalizer returns \<open>a\<close>. And the normalizer does not return for every URL:
  for \<open>https://[zz]/p/x\<close> the library refuses the host in brackets and the normalizer
  raises \<open>ValueError\<close>.
\<close>

theorem params_cut_and_host_refused:
  "normalize_relative_path ''https://h/p/a;x'' ''/p/'' = Inr ''a''
   \<and> spec_normalize (''/p/'' @ ''a;x'') ''/p/'' = ''a;x''
   \<and> normalize_relative_path ''https://[zz]/p/x'' ''/p/'' = Inl ValueError"
  by (simp add: normalize_relative_path_def spec_normalize_def urlparse_path_def split_scheme_def
      split_netloc_def c0_or_space_def unsafe_url_byte_def is_ascii_alpha_def scheme_char_def
      ascii_lower_def netloc_delim_def uses_params_def splitparams_def lstrip_slash_def
      startswith_def bracketed_host_def check_bracketed_host_def ipv4_ok_def ipv6_ok_def
      ipv6_body_ok_def Let_def)



section \<open>Paths\<close>

text \<open>
  \<open>pathlib\<close> on POSIX reads a path as a root (\<open>/\<close>, or \<open>//\<close> for exactly two leading
  slashes, or none) and its segments, dropping empty segments and \<open>.\<close> but keeping
  \<open>..\<close>; \<open>str\<close> writes it back, \<open>.\<close> for the empty relative path.
\<close>

definition path_root :: "string \<Rightarrow> string" where
  "path_root s =
     (if take 2 s = ''//'' \<and> take 3 s \<noteq> ''///'' then ''//''
      else if take 1 s = ''/'' then ''/'' else [])"

definition path_parts :: "string \<Rightarrow> string list" where
  "path_parts s = filter (\<lambda>w. w \<noteq> [] \<and> w \<noteq> ''.'') (split_on slash s)"

definition path_str :: "string \<Rightarrow> string list \<Rightarrow> string" where
  "path_str root parts =
     (if root = [] \<and> parts = [] then ''.'' else root @ join_with slash parts)"

text \<open>\<open>str(Path(a, b))\<close>, also \<open>str(Path(a) / b)\<close>: an absolute \<open>b\<close> replaces \<open>a\<close>.\<close>

definition path_join :: "string \<Rightarrow> string \<Rightarrow> string" where
  "path_join a b =
     (if startswith b ''/'' then path_str (path_root b) (path_parts b)
      else path_str (path_root a) (path_parts a @ path_parts b))"

text \<open>
  What resolving a path does to its segments when no symbolic link is involved: \<open>..\<close>
  cancels the segment before it (and is dropped at the root). A path stays under a
  directory when the directory's resolved segments begin its own.
\<close>

fun resolve_parts :: "string list \<Rightarrow> string list \<Rightarrow> string list" where
  "resolve_parts acc [] = acc"
| "resolve_parts acc (w # ws) =
     (if w = ''..'' then resolve_parts (butlast acc) ws else resolve_parts (acc @ [w]) ws)"

definition stays_under :: "string \<Rightarrow> string \<Rightarrow> bool" where
  "stays_under root p =
     prefix (resolve_parts [] (path_parts root)) (resolve_parts [] (path_parts p))"

section \<open>Include prefixes\<close>

text \<open>\<open>normalize_prefixes\<close> of \<open>download_data.py\<close>.\<close>

definition normalize_prefixes :: "string list \<Rightarrow> string list" where
  "normalize_prefixes prefix_args =
     concat (map (\<lambda>raw. map lstrip_slash
                          (filter (\<lambda>token. token \<noteq> []) (map py_strip (split_on CHR '','' raw))))
                 prefix_args)"

text \<open>\<open>normalize_prefixes\<close> of \<open>make_wget.py\<close>.\<close>

definition mw_normalize_prefixes :: "string list \<Rightarrow> string list" where
  "mw_normalize_prefixes raw_list =
     concat (map (\<lambda>raw. map lstrip_slash
                          (filter (\<lambda>token. token \<noteq> []) (map py_strip (split_on CHR '','' raw))))
                 raw_list)"

text \<open>
  The test both loops make before \<open>continue\<close>:
  \<open>include_prefixes and not any(rel.startswith(p) for p in include_prefixes)\<close>.
\<close>

definition filtered_out :: "string list \<Rightarrow> string \<Rightarrow> bool" where
  "filtered_out include_prefixes rel =
     (include_prefixes \<noteq> [] \<and> \<not> list_ex (\<lambda>p. startswith rel p) include_prefixes)"

section \<open>The manifest and its URLs\<close>

text \<open>
  What \<open>yaml.safe_load\<close> returns: strings, lists, dictionaries (their items in order) and
  the other scalars (\<open>None\<close>, booleans, numbers). Of such a scalar the scripts use two
  things only, its truth value and the text that \<open>str\<close> gives, and these stand for it.
  A key of a dictionary is a string or such a scalar.
\<close>

datatype ykey = KStr string | KScalar bool string

datatype yaml = YStr string | YList "yaml list" | YDict "(ykey \<times> yaml) list" | YScalar bool string

definition DATA_KEYS :: "string list" where
  "DATA_KEYS = [''data-path'', ''data_path'', ''data-paths'', ''data_paths'']"

text \<open>\<open>str(k) in DATA_KEYS\<close>\<close>

fun key_in_DATA_KEYS :: "ykey \<Rightarrow> bool" where
  "key_in_DATA_KEYS (KStr k) = (k \<in> set DATA_KEYS)"
| "key_in_DATA_KEYS (KScalar truth txt) = (txt \<in> set DATA_KEYS)"

text \<open>
  \<open>re.findall(r"https?://\S+", s)\<close>: a match starts where \<open>http://\<close> or \<open>https://\<close> is
  followed by a character that is not white space, and runs to the next white space; the
  search goes on after the match.
\<close>

definition url_match_here :: "string \<Rightarrow> bool" where
  "url_match_here s =
     ((startswith s ''http://'' \<and> drop 7 s \<noteq> [] \<and> \<not> py_isspace (hd (drop 7 s)))
      \<or> (startswith s ''https://'' \<and> drop 8 s \<noteq> [] \<and> \<not> py_isspace (hd (drop 8 s))))"

function findall_urls :: "string \<Rightarrow> string list" where
  "findall_urls s =
     (if s = [] then []
      else if url_match_here s
      then takeWhile (\<lambda>c. \<not> py_isspace c) s # findall_urls (dropWhile (\<lambda>c. \<not> py_isspace c) s)
      else findall_urls (tl s))"
  by pat_completeness auto
termination
proof (relation "measure length")
  show "wf (measure length)" by simp
next
  fix s :: string
  assume "s \<noteq> []" and m: "url_match_here s"
  then obtain c cs where s: "s = c # cs" by (cases s) auto
  from m s have "\<not> py_isspace c"
    by (auto simp: url_match_here_def startswith_def py_isspace_def)
  then have "length (dropWhile (\<lambda>c. \<not> py_isspace c) s) \<le> length cs"
    using s by (simp add: length_dropWhile_le)
  then show "(dropWhile (\<lambda>c. \<not> py_isspace c) s, s) \<in> measure length"
    using s by simp
next
  fix s :: string
  assume "s \<noteq> []"
  then show "(tl s, s) \<in> measure length" by (cases s) auto
qed

declare findall_urls.simps [simp del]

lemma findall_urls_Nil [simp]: "findall_urls [] = []"
  by (simp add: findall_urls.simps)

lemma findall_urls_Cons [simp]:
  "findall_urls (c # cs) =
     (if url_match_here (c # cs)
      then takeWhile (\<lambda>c. \<not> py_isspace c) (c # cs)
           # findall_urls (dropWhile (\<lambda>c. \<not> py_isspace c) (c # cs))
      else findall_urls cs)"
  by (subst findall_urls.simps) simp

text \<open>\<open>extract_urls_from_any\<close>, with the loops over a list and over a dictionary's values.\<close>

fun extract_urls_from_any :: "yaml \<Rightarrow> string list"
  and extract_urls_from_list :: "yaml list \<Rightarrow> string list"
  and extract_urls_from_values :: "(ykey \<times> yaml) list \<Rightarrow> string list" where
  "extract_urls_from_any (YStr s) = findall_urls s"
| "extract_urls_from_any (YList xs) = extract_urls_from_list xs"
| "extract_urls_from_any (YDict kvs) = extract_urls_from_values kvs"
| "extract_urls_from_any (YScalar truth txt) = []"
| "extract_urls_from_list [] = []"
| "extract_urls_from_list (x # xs) = extract_urls_from_any x @ extract_urls_from_list xs"
| "extract_urls_from_values [] = []"
| "extract_urls_from_values ((k, v) # kvs) = extract_urls_from_any v @ extract_urls_from_values kvs"

definition fallback_find_all_urls :: "yaml \<Rightarrow> string list" where
  "fallback_find_all_urls obj = extract_urls_from_any obj"

text \<open>
  \<open>find_urls_from_data_keys\<close>: the inner \<open>_walk\<close>, returning what it appends to \<open>found\<close>.
\<close>

fun walk :: "yaml \<Rightarrow> string list"
  and walk_list :: "yaml list \<Rightarrow> string list"
  and walk_items :: "(ykey \<times> yaml) list \<Rightarrow> string list" where
  "walk (YDict kvs) = walk_items kvs"
| "walk (YList xs) = walk_list xs"
| "walk (YStr s) = []"
| "walk (YScalar truth txt) = []"
| "walk_list [] = []"
| "walk_list (x # xs) = walk x @ walk_list xs"
| "walk_items [] = []"
| "walk_items ((k, v) # kvs) =
     (if key_in_DATA_KEYS k then extract_urls_from_any v else []) @ walk v @ walk_items kvs"

definition find_urls_from_data_keys :: "yaml \<Rightarrow> string list" where
  "find_urls_from_data_keys obj = walk obj"

text \<open>The loop of \<open>gather_urls\<close> that removes duplicates, \<open>seen\<close> being the set so far.\<close>

fun uniq_loop :: "string list \<Rightarrow> string list \<Rightarrow> string list" where
  "uniq_loop seen [] = []"
| "uniq_loop seen (u # us) =
     (if u \<notin> set seen \<and> (startswith u ''http://'' \<or> startswith u ''https://'')
      then u # uniq_loop (u # seen) us
      else uniq_loop seen us)"

definition gather_urls :: "yaml \<Rightarrow> string list" where
  "gather_urls yaml_obj =
     (let urls = find_urls_from_data_keys yaml_obj;
          urls' = (if urls = [] then fallback_find_all_urls yaml_obj else urls)
      in uniq_loop [] urls')"

section \<open>Re-applying the normalizer\<close>

lemma normalize_no_leading_slash:
  assumes "normalize_relative_path u t = Inr r"
  shows "\<not> startswith r ''/''"
proof (cases "urlparse_path u")
  case (Inl e)
  with assms show ?thesis by (simp add: normalize_spec)
next
  case (Inr p)
  with assms have r: "r = spec_normalize p t" by (simp add: normalize_spec)
  show ?thesis
    unfolding r spec_normalize_def Let_def by (simp add: lstrip_slash_no_lead)
qed






section \<open>Building the task list and the script's pairs\<close>

text \<open>How a \<open>main\<close> ends: it returns a value, calls \<open>sys.exit\<close>, or raises.\<close>

datatype 'a outcome = Returns 'a | Exits nat | Raises exn

text \<open>
  The loop of \<open>download_data.main\<close> that prepares the tasks: normalize, filter, join with
  the data directory, append. An exception of the normalizer leaves the loop.
\<close>

fun build_tasks :: "string \<Rightarrow> string \<Rightarrow> string list \<Rightarrow> string list \<Rightarrow> exn + (string \<times> string) list" where
  "build_tasks data_dir trim_prefix include_prefixes [] = Inr []"
| "build_tasks data_dir trim_prefix include_prefixes (url # urls) =
     (case normalize_relative_path url trim_prefix of
        Inl e \<Rightarrow> Inl e
      | Inr rel \<Rightarrow>
          if filtered_out include_prefixes rel
          then build_tasks data_dir trim_prefix include_prefixes urls
          else (case build_tasks data_dir trim_prefix include_prefixes urls of
                  Inl e \<Rightarrow> Inl e
                | Inr tasks \<Rightarrow> Inr ((url, path_join data_dir rel) # tasks)))"

text \<open>
  \<open>download_data.main\<close> from the loaded manifest to the task list; \<open>data_dir\<close> is the
  resolved data directory.
\<close>

definition dd_tasks :: "string \<Rightarrow> string \<Rightarrow> string list \<Rightarrow> yaml \<Rightarrow> (string \<times> string) list outcome" where
  "dd_tasks data_dir trim_prefix include_prefix yaml_obj =
     (let urls = gather_urls yaml_obj
      in if urls = [] then Exits 1
         else (let include_prefixes = normalize_prefixes include_prefix
               in case build_tasks data_dir trim_prefix include_prefixes urls of
                    Inl e \<Rightarrow> Raises e
                  | Inr tasks \<Rightarrow> if tasks = [] then Exits 2 else Returns tasks))"

text \<open>
  What \<open>make_wget.main\<close> does with the loaded manifest \<open>y\<close>: \<open>k in o\<close>, \<open>o[k]\<close> and
  iteration, for each kind of value.
\<close>

fun contains_sub :: "string \<Rightarrow> string \<Rightarrow> bool" where
  "contains_sub k [] = (k = [])"
| "contains_sub k (c # cs) = (prefix k (c # cs) \<or> contains_sub k cs)"

fun py_contains :: "yaml \<Rightarrow> string \<Rightarrow> exn + bool" where
  "py_contains (YDict kvs) k = Inr (KStr k \<in> set (map fst kvs))"
| "py_contains (YList xs) k = Inr (YStr k \<in> set xs)"
| "py_contains (YStr s) k = Inr (contains_sub k s)"
| "py_contains (YScalar truth txt) k = Inl TypeError"

fun py_getitem :: "yaml \<Rightarrow> string \<Rightarrow> exn + yaml" where
  "py_getitem (YDict kvs) k =
     (case map_of kvs (KStr k) of None \<Rightarrow> Inl KeyError | Some v \<Rightarrow> Inr v)"
| "py_getitem (YList xs) k = Inl TypeError"
| "py_getitem (YStr s) k = Inl TypeError"
| "py_getitem (YScalar truth txt) k = Inl TypeError"

fun key_value :: "ykey \<Rightarrow> yaml" where
  "key_value (KStr s) = YStr s"
| "key_value (KScalar truth txt) = YScalar truth txt"

fun py_iter :: "yaml \<Rightarrow> exn + yaml list" where
  "py_iter (YList xs) = Inr xs"
| "py_iter (YDict kvs) = Inr (map (\<lambda>kv. key_value (fst kv)) kvs)"
| "py_iter (YStr s) = Inr (map (\<lambda>c. YStr [c]) s)"
| "py_iter (YScalar truth txt) = Inl TypeError"

text \<open>
  An element of \<open>urls\<close> that is not a string is handed to the normalizer as it is. The
  library reads a false value (\<open>None\<close>, \<open>False\<close>, zero, an empty list or dictionary) as
  the empty string, and raises \<open>AttributeError\<close> on any other, which has nothing to
  decode.
\<close>

fun py_truth :: "yaml \<Rightarrow> bool" where
  "py_truth (YStr s) = (s \<noteq> [])"
| "py_truth (YList xs) = (xs \<noteq> [])"
| "py_truth (YDict kvs) = (kvs \<noteq> [])"
| "py_truth (YScalar truth txt) = truth"

fun mw_normalize_value :: "yaml \<Rightarrow> string \<Rightarrow> exn + string" where
  "mw_normalize_value (YStr url) trim_prefix = mw_normalize_relative_path url trim_prefix"
| "mw_normalize_value other trim_prefix =
     (if py_truth other then Inl AttributeError else mw_normalize_relative_path [] trim_prefix)"

text \<open>
  What \<open>format\<close> writes for the \<open>url\<close> of a pair. A list or a dictionary gets into a pair
  only when it is empty.
\<close>

fun format_value :: "yaml \<Rightarrow> string" where
  "format_value (YStr s) = s"
| "format_value (YScalar truth txt) = txt"
| "format_value (YList xs) = ''[]''"
| "format_value (YDict kvs) = ''{}''"

text \<open>
  The loop of \<open>make_wget.main\<close> over \<open>urls\<close>. A pair keeps of its \<open>url\<close> the text that the
  script will show, which for a string is the string.
\<close>

fun mw_pairs :: "string \<Rightarrow> string list \<Rightarrow> yaml list \<Rightarrow> exn + (string \<times> string) list" where
  "mw_pairs trim_prefix include_prefixes [] = Inr []"
| "mw_pairs trim_prefix include_prefixes (url # urls) =
     (case mw_normalize_value url trim_prefix of
        Inl e \<Rightarrow> Inl e
      | Inr rel \<Rightarrow>
          if filtered_out include_prefixes rel
          then mw_pairs trim_prefix include_prefixes urls
          else (case mw_pairs trim_prefix include_prefixes urls of
                  Inl e \<Rightarrow> Inl e
                | Inr pairs \<Rightarrow> Inr ((format_value url, rel) # pairs)))"

text \<open>\<open>urls = y["data"]["paths"]\<close>, after the test that both keys are there.\<close>

definition mw_urls :: "yaml \<Rightarrow> yaml list outcome" where
  "mw_urls y =
     (case py_contains y ''data'' of
        Inl e \<Rightarrow> Raises e
      | Inr False \<Rightarrow> Exits 1
      | Inr True \<Rightarrow>
          (case py_getitem y ''data'' of
             Inl e \<Rightarrow> Raises e
           | Inr d \<Rightarrow>
               (case py_contains d ''paths'' of
                  Inl e \<Rightarrow> Raises e
                | Inr False \<Rightarrow> Exits 1
                | Inr True \<Rightarrow>
                    (case py_getitem d ''paths'' of
                       Inl e \<Rightarrow> Raises e
                     | Inr urls \<Rightarrow>
                         (case py_iter urls of Inl e \<Rightarrow> Raises e | Inr us \<Rightarrow> Returns us)))))"

text \<open>\<open>make_wget.main\<close> from the loaded manifest to the pairs it renders.\<close>

definition mw_main_pairs :: "string \<Rightarrow> string list \<Rightarrow> yaml \<Rightarrow> (string \<times> string) list outcome" where
  "mw_main_pairs trim_prefix include_prefix y =
     (case mw_urls y of
        Raises e \<Rightarrow> Raises e
      | Exits n \<Rightarrow> Exits n
      | Returns urls \<Rightarrow>
          (let include_prefixes = mw_normalize_prefixes include_prefix
           in case mw_pairs trim_prefix include_prefixes urls of
                Inl e \<Rightarrow> Raises e
              | Inr pairs \<Rightarrow> if pairs = [] then Exits 2 else Returns pairs))"

section \<open>Destinations and the data root\<close>

definition segment_ok :: "string \<Rightarrow> bool" where
  "segment_ok w = (w \<noteq> [] \<and> w \<noteq> ''.'' \<and> slash \<notin> set w)"

lemma path_parts_ok: "list_all segment_ok (path_parts s)"
  by (auto simp: path_parts_def segment_ok_def list_all_iff dest: split_on_pieces)

lemma path_parts_join:
  assumes "list_all segment_ok ps"
  shows "path_parts (join_with slash ps) = ps"
proof (cases "ps = []")
  case True
  then show ?thesis by (simp add: path_parts_def)
next
  case False
  have "list_all (\<lambda>w. slash \<notin> set w) ps"
    using assms by (simp add: list_all_iff segment_ok_def)
  then have "split_on slash (join_with slash ps) = ps"
    using False by (simp add: split_on_join)
  moreover have "filter (\<lambda>w. w \<noteq> [] \<and> w \<noteq> ''.'') ps = ps"
    using assms by (intro filter_id_conv) (simp add: list_all_iff segment_ok_def)
  ultimately show ?thesis by (simp add: path_parts_def)
qed

lemma path_parts_slash: "path_parts (slash # s) = path_parts s"
  by (simp add: path_parts_def)

lemma path_root_cases: "path_root a = [] \<or> path_root a = ''/'' \<or> path_root a = ''//''"
  by (simp add: path_root_def)

lemma path_parts_path_str:
  assumes "list_all segment_ok ps"
  shows "path_parts (path_str (path_root a) ps) = ps"
proof -
  consider "path_root a = []" | "path_root a = ''/''" | "path_root a = ''//''"
    using path_root_cases by blast
  then show ?thesis
  proof cases
    case 1
    show ?thesis
    proof (cases "ps = []")
      case True
      then show ?thesis by (simp add: path_str_def 1 path_parts_def)
    next
      case False
      then show ?thesis by (simp add: path_str_def 1 path_parts_join[OF assms])
    qed
  next
    case 2
    then show ?thesis by (simp add: path_str_def path_parts_slash path_parts_join[OF assms])
  next
    case 3
    then show ?thesis by (simp add: path_str_def path_parts_slash path_parts_join[OF assms])
  qed
qed

lemma path_parts_path_join:
  assumes "\<not> startswith rel ''/''"
  shows "path_parts (path_join d rel) = path_parts d @ path_parts rel"
proof -
  have "list_all segment_ok (path_parts d @ path_parts rel)"
    using path_parts_ok[of d] path_parts_ok[of rel] by simp
  then show ?thesis
    using assms by (simp add: path_join_def path_parts_path_str)
qed

lemma resolve_parts_append:
  "resolve_parts acc (xs @ ys) = resolve_parts (resolve_parts acc xs) ys"
  by (induction xs arbitrary: acc) auto

lemma resolve_parts_plain: "''..'' \<notin> set ys \<Longrightarrow> resolve_parts acc ys = acc @ ys"
  by (induction ys arbitrary: acc) auto

lemma stays_under_join:
  assumes "\<not> startswith rel ''/''" and "''..'' \<notin> set (path_parts rel)"
  shows "stays_under d (path_join d rel)"
  unfolding stays_under_def path_parts_path_join[OF assms(1)]
  by (simp add: resolve_parts_append resolve_parts_plain[OF assms(2)])

text \<open>What holds of a task \<open>(url, dst)\<close> built under the data directory \<open>d\<close>.\<close>

definition task_under :: "string \<Rightarrow> string \<Rightarrow> string \<times> string \<Rightarrow> bool" where
  "task_under d t task =
     (case normalize_relative_path (fst task) t of
        Inl e \<Rightarrow> False
      | Inr rel \<Rightarrow>
          snd task = path_join d rel
          \<and> \<not> startswith rel ''/''
          \<and> path_parts (snd task) = path_parts d @ path_parts rel
          \<and> (if ''..'' \<in> set (path_parts rel) then True else stays_under d (snd task)))"

lemma build_tasks_under:
  "build_tasks d t incl urls = Inr tasks \<Longrightarrow> list_all (task_under d t) tasks"
proof (induction urls arbitrary: tasks)
  case Nil
  then show ?case by simp
next
  case (Cons url urls)
  show ?case
  proof (cases "normalize_relative_path url t")
    case (Inl e)
    with Cons.prems show ?thesis by simp
  next
    case (Inr rel)
    note nl = normalize_no_leading_slash[OF Inr]
    show ?thesis
    proof (cases "filtered_out incl rel")
      case True
      with Cons Inr show ?thesis by simp
    next
      case False
      with Cons.prems Inr obtain ts where
        ts: "build_tasks d t incl urls = Inr ts" and tasks: "tasks = (url, path_join d rel) # ts"
        by (auto split: sum.splits)
      have "task_under d t (url, path_join d rel)"
        using nl by (simp add: task_under_def Inr path_parts_path_join stays_under_join)
      then show ?thesis
        using Cons.IH[OF ts] tasks by simp
    qed
  qed
qed

text \<open>
  C3, as the claim states it, fails: a URL whose path has \<open>..\<close> segments keeps them. With
  trim prefix \<open>/p/\<close> and data root \<open>/data\<close> the URL \<open>https://h/p/../../etc/x\<close> gives the
  relative path \<open>../../etc/x\<close> and the task destination \<open>/data/../../etc/x\<close>, which resolves
  outside the data root.
\<close>

theorem traversal_escapes_data_root:
  "normalize_relative_path ''https://h/p/../../etc/x'' ''/p/'' = Inr ''../../etc/x''
   \<and> ''..'' \<in> set (path_parts ''../../etc/x'')
   \<and> build_tasks ''/data'' ''/p/'' [] [''https://h/p/../../etc/x'']
       = Inr [(''https://h/p/../../etc/x'', ''/data/../../etc/x'')]
   \<and> \<not> stays_under ''/data'' ''/data/../../etc/x''"
  by (simp add: normalize_relative_path_def urlparse_path_def split_scheme_def split_netloc_def
      c0_or_space_def unsafe_url_byte_def is_ascii_alpha_def scheme_char_def ascii_lower_def
      netloc_delim_def uses_params_def lstrip_slash_def startswith_def path_parts_def
      filtered_out_def path_join_def path_str_def path_root_def stays_under_def)

text \<open>
  C3, amended. For every URL the relative path produced by the normalizer has no leading
  slash, and the destination of every created task is the data root joined with that
  path: its segments are the data root's followed by the relative path's. Parent-directory
  segments of the URL path are kept; when the relative path has none, the resolved
  destination stays under the data root.
\<close>

theorem tasks_joined_under_data_root:
  "(normalize_relative_path u t = Inr rel \<longrightarrow> \<not> startswith rel ''/'')
   \<and> (build_tasks d t incl urls = Inr tasks \<longrightarrow> list_all (task_under d t) tasks)"
  using normalize_no_leading_slash build_tasks_under by blast

theorem tasks_joined_under_data_root_witness:
  "normalize_relative_path ''https://h/p/a/x'' ''/p/'' = Inr ''a/x''
   \<and> \<not> startswith ''a/x'' ''/''
   \<and> build_tasks ''/data'' ''/p/'' [] [''https://h/p/a/x''] = Inr [(''https://h/p/a/x'', ''/data/a/x'')]
   \<and> list_all (task_under ''/data'' ''/p/'') [(''https://h/p/a/x'', ''/data/a/x'')]
   \<and> stays_under ''/data'' ''/data/a/x''"
  using tasks_joined_under_data_root [of "''https://h/p/a/x''" "''/p/''" "''a/x''" "''/data''" "[]"
      "[''https://h/p/a/x'']" "[(''https://h/p/a/x'', ''/data/a/x'')]"]
  by (simp add: normalize_relative_path_def urlparse_path_def split_scheme_def split_netloc_def
      c0_or_space_def unsafe_url_byte_def is_ascii_alpha_def scheme_char_def ascii_lower_def
      netloc_delim_def uses_params_def lstrip_slash_def startswith_def path_parts_def
      filtered_out_def path_join_def path_str_def path_root_def stays_under_def task_under_def)

section \<open>The engine's tasks and the synthesizer's pairs\<close>

text \<open>A string that the URL pattern matches as a whole.\<close>

definition url_like :: "string \<Rightarrow> bool" where
  "url_like u = (url_match_here u \<and> list_all (\<lambda>c. \<not> py_isspace c) u)"

text \<open>The manifest that holds a list of strings under \<open>data.paths\<close> and nothing else.\<close>

definition plain_manifest :: "string list \<Rightarrow> yaml" where
  "plain_manifest us = YDict [(KStr ''data'', YDict [(KStr ''paths'', YList (map YStr us))])]"

text \<open>The engine's tasks that correspond to the synthesizer's pairs.\<close>

definition tasks_of_pairs :: "string \<Rightarrow> (string \<times> string) list \<Rightarrow> (string \<times> string) list" where
  "tasks_of_pairs data_dir pairs = map (\<lambda>p. (fst p, path_join data_dir (snd p))) pairs"

fun outcome_tasks :: "string \<Rightarrow> (string \<times> string) list outcome \<Rightarrow> (string \<times> string) list outcome" where
  "outcome_tasks d (Returns pairs) = Returns (tasks_of_pairs d pairs)"
| "outcome_tasks d (Exits n) = Exits n"
| "outcome_tasks d (Raises e) = Raises e"

lemma url_like_http: "url_like u \<Longrightarrow> startswith u ''http://'' \<or> startswith u ''https://''"
  by (auto simp: url_like_def url_match_here_def)

lemma findall_urls_url_like:
  assumes "url_like u"
  shows "findall_urls u = [u]"
proof -
  from assms have ne: "u \<noteq> []"
    by (auto simp: url_like_def url_match_here_def startswith_def)
  then obtain c cs where u: "u = c # cs" by (cases u) auto
  have all: "list_all (\<lambda>c. \<not> py_isspace c) (c # cs)"
    using assms u by (simp add: url_like_def)
  have m: "url_match_here (c # cs)" using assms u by (simp add: url_like_def)
  have "findall_urls (c # cs) = [c # cs]"
    by (simp only: findall_urls_Cons m if_True takeWhile_all[OF all] dropWhile_all[OF all]
        findall_urls_Nil)
  then show ?thesis by (simp add: u)
qed

lemma extract_urls_strs:
  "list_all url_like us \<Longrightarrow> extract_urls_from_list (map YStr us) = us"
  by (induction us) (simp_all add: findall_urls_url_like)

lemma walk_list_strs: "walk_list (map YStr us) = []"
  by (induction us) simp_all

lemma uniq_loop_distinct:
  "distinct us \<Longrightarrow> set us \<inter> set seen = {}
   \<Longrightarrow> list_all (\<lambda>u. startswith u ''http://'' \<or> startswith u ''https://'') us
   \<Longrightarrow> uniq_loop seen us = us"
proof (induction us arbitrary: seen)
  case Nil
  then show ?case by simp
next
  case (Cons u us)
  have "uniq_loop (u # seen) us = us"
    using Cons.prems by (intro Cons.IH) auto
  then show ?case using Cons.prems by simp
qed

lemma gather_urls_plain:
  assumes "list_all url_like us" and "distinct us"
  shows "gather_urls (plain_manifest us) = us"
proof -
  have w: "find_urls_from_data_keys (plain_manifest us) = []"
    by (simp add: find_urls_from_data_keys_def plain_manifest_def DATA_KEYS_def walk_list_strs)
  have f: "fallback_find_all_urls (plain_manifest us) = us"
    by (simp add: fallback_find_all_urls_def plain_manifest_def extract_urls_strs[OF assms(1)])
  have h: "list_all (\<lambda>u. startswith u ''http://'' \<or> startswith u ''https://'') us"
    using assms(1) url_like_http by (auto simp: list_all_iff)
  show ?thesis
    by (simp add: gather_urls_def w f uniq_loop_distinct[OF assms(2) _ h])
qed

lemma mw_urls_plain: "mw_urls (plain_manifest us) = Returns (map YStr us)"
  by (simp add: mw_urls_def plain_manifest_def)

lemma build_tasks_mw_pairs:
  "build_tasks d t incl us =
     (case mw_pairs t incl (map YStr us) of
        Inl e \<Rightarrow> Inl e | Inr pairs \<Rightarrow> Inr (tasks_of_pairs d pairs))"
  by (induction us) (auto simp: mw_same tasks_of_pairs_def split: sum.splits)

lemma prefixes_same: "mw_normalize_prefixes args = normalize_prefixes args"
  by (simp add: mw_normalize_prefixes_def normalize_prefixes_def)

lemma dd_tasks_mw_main_pairs:
  assumes "gather_urls M = us" and "mw_urls M = Returns (map YStr us)" and "us \<noteq> []"
  shows "dd_tasks d t incl M = outcome_tasks d (mw_main_pairs t incl M)"
  using assms
  by (auto simp: dd_tasks_def mw_main_pairs_def Let_def prefixes_same build_tasks_mw_pairs
      tasks_of_pairs_def split: sum.splits)

text \<open>
  C6, as the claim states it, fails: the synthesizer takes \<open>data.paths\<close> as it is, while
  the engine removes duplicates. For a manifest that lists one URL twice the synthesizer
  renders two pairs and the engine builds one task.
\<close>

theorem pairs_differ_on_duplicate_url:
  "mw_main_pairs ''/p/'' [] (plain_manifest [''https://h/p/a/x'', ''https://h/p/a/x''])
     = Returns [(''https://h/p/a/x'', ''a/x''), (''https://h/p/a/x'', ''a/x'')]
   \<and> dd_tasks ''/data'' ''/p/'' [] (plain_manifest [''https://h/p/a/x'', ''https://h/p/a/x''])
     = Returns [(''https://h/p/a/x'', ''/data/a/x'')]"
  by (simp add: mw_main_pairs_def mw_urls_def plain_manifest_def mw_normalize_prefixes_def
      mw_normalize_relative_path_def dd_tasks_def gather_urls_def find_urls_from_data_keys_def
      fallback_find_all_urls_def DATA_KEYS_def normalize_prefixes_def url_match_here_def
      py_isspace_def normalize_relative_path_def urlparse_path_def split_scheme_def
      split_netloc_def c0_or_space_def unsafe_url_byte_def is_ascii_alpha_def scheme_char_def
      ascii_lower_def netloc_delim_def uses_params_def lstrip_slash_def startswith_def
      path_parts_def filtered_out_def path_join_def path_str_def path_root_def)

text \<open>
  C6, amended. Whenever the URL list that the engine gathers from a manifest is exactly
  the non-empty list of strings under \<open>data.paths\<close>, and both tools get the same trim
  prefix and include prefixes, the two mains end alike, and the engine's tasks are the
  synthesizer's pairs in the same order, each destination being the data directory joined
  with the pair's relative path. A manifest that holds under \<open>data.paths\<close> distinct
  strings, each matched as a whole by the URL pattern, and nothing else, is such a
  manifest.
\<close>

theorem tasks_are_pairs_when_urls_agree:
  "(gather_urls M = us \<and> mw_urls M = Returns (map YStr us) \<and> us \<noteq> []
      \<longrightarrow> dd_tasks d t incl M = outcome_tasks d (mw_main_pairs t incl M))
   \<and> (list_all url_like vs \<and> distinct vs
      \<longrightarrow> gather_urls (plain_manifest vs) = vs
          \<and> mw_urls (plain_manifest vs) = Returns (map YStr vs))"
  using dd_tasks_mw_main_pairs gather_urls_plain mw_urls_plain by blast

theorem tasks_are_pairs_when_urls_agree_witness:
  "list_all url_like [''https://h/p/a/x'', ''https://h/p/a/y'']
   \<and> distinct [''https://h/p/a/x'', ''https://h/p/a/y'']
   \<and> gather_urls (plain_manifest [''https://h/p/a/x'', ''https://h/p/a/y''])
       = [''https://h/p/a/x'', ''https://h/p/a/y'']
   \<and> mw_urls (plain_manifest [''https://h/p/a/x'', ''https://h/p/a/y''])
       = Returns (map YStr [''https://h/p/a/x'', ''https://h/p/a/y''])
   \<and> dd_tasks ''/data'' ''/p/'' [] (plain_manifest [''https://h/p/a/x'', ''https://h/p/a/y''])
       = outcome_tasks ''/data''
           (mw_main_pairs ''/p/'' [] (plain_manifest [''https://h/p/a/x'', ''https://h/p/a/y'']))
   \<and> mw_main_pairs ''/p/'' [] (plain_manifest [''https://h/p/a/x'', ''https://h/p/a/y''])
       = Returns [(''https://h/p/a/x'', ''a/x''), (''https://h/p/a/y'', ''a/y'')]"
proof -
  have l: "list_all url_like [''https://h/p/a/x'', ''https://h/p/a/y'']"
    by (simp add: url_like_def url_match_here_def startswith_def py_isspace_def)
  have d: "distinct [''https://h/p/a/x'', ''https://h/p/a/y'']" by simp
  have p: "mw_main_pairs ''/p/'' [] (plain_manifest [''https://h/p/a/x'', ''https://h/p/a/y''])
       = Returns [(''https://h/p/a/x'', ''a/x''), (''https://h/p/a/y'', ''a/y'')]"
    by (simp add: mw_main_pairs_def mw_urls_def plain_manifest_def mw_normalize_prefixes_def
      mw_normalize_relative_path_def urlparse_path_def split_scheme_def
      split_netloc_def c0_or_space_def unsafe_url_byte_def is_ascii_alpha_def scheme_char_def
      ascii_lower_def netloc_delim_def uses_params_def lstrip_slash_def startswith_def
      filtered_out_def)
  show ?thesis
    using tasks_are_pairs_when_urls_agree [of
        "plain_manifest [''https://h/p/a/x'', ''https://h/p/a/y'']"
        "[''https://h/p/a/x'', ''https://h/p/a/y'']" "''/data''" "''/p/''" "[]"
        "[''https://h/p/a/x'', ''https://h/p/a/y'']"] l d p
    by simp
qed

section \<open>The skip decision\<close>








text \<open>
  The local files: the size of each path that exists. \<open>file_size\<close> of \<open>download_data.py\<close>
  returns \<open>-1\<close> for a path that does not exist.
\<close>

type_synonym files = "string \<Rightarrow> nat option"

definition file_size :: "files \<Rightarrow> string \<Rightarrow> int" where
  "file_size fs p = (case fs p of Some n \<Rightarrow> int n | None \<Rightarrow> - 1)"


datatype http_method = HEAD | GET

type_synonym request = "http_method \<times> string"




section \<open>The download engine's run\<close>

text \<open>
  The state a run can change: the files under the data directory, and the requests sent
  so far.
\<close>

record world =
  files :: files
  requests :: "request list"

text \<open>
  The names that are bound when \<open>main\<close> runs: those that \<open>download_data.py\<close> imports or
  defines at module level, and the local variables of \<open>main\<close>. Looking up any other name
  that is not a builtin raises \<open>NameError\<close>; \<open>download_one\<close> is not a builtin.
\<close>

definition module_globals :: "string list" where
  "module_globals =
     [''argparse'', ''Path'', ''re'', ''sys'', ''Any'', ''List'', ''Set'', ''urlparse'', ''yaml'',
      ''requests'', ''HTTPAdapter'', ''Retry'', ''DATA_KEYS'', ''make_session'',
      ''find_urls_from_data_keys'', ''extract_urls_from_any'', ''fallback_find_all_urls'',
      ''normalize_relative_path'', ''ensure_parent_dir'', ''file_size'', ''should_skip'',
      ''gather_urls'', ''normalize_prefixes'', ''main'']"

definition main_locals :: "string list" where
  "main_locals =
     [''parser'', ''args'', ''data_dir'', ''f'', ''yaml_obj'', ''urls'', ''include_prefixes'', ''p'',
      ''session'', ''tasks'', ''kept'', ''url'', ''rel'', ''dst'', ''ThreadPoolExecutor'',
      ''as_completed'', ''errors'', ''ex'', ''futs'', ''_'']"

definition lookup_name :: "string \<Rightarrow> exn + unit" where
  "lookup_name n =
     (if n \<in> set main_locals \<or> n \<in> set module_globals then Inr () else Inl NameError)"

text \<open>
  The retry policy that \<open>make_session\<close> mounts on the session, as its arguments give it;
  the back-off factor 0.5 is counted in halves of a second.
\<close>

record retry_policy =
  total :: nat
  connect :: nat
  read :: nat
  backoff_factor_halves :: nat
  status_forcelist :: "nat list"
  allowed_methods :: "http_method list"
  raise_on_status :: bool

definition make_session :: retry_policy where
  "make_session =
     \<lparr>total = 5, connect = 5, read = 5, backoff_factor_halves = 1,
      status_forcelist = [429, 500, 502, 503, 504], allowed_methods = [HEAD, GET],
      raise_on_status = False\<rparr>"

text \<open>
  \<open>futs = [ex.submit(download_one, session, url, dst) for url, dst in tasks]\<close>: for each
  task the main thread evaluates the arguments of \<open>ex.submit\<close>, the name \<open>download_one\<close>
  first, and only then hands the call to the pool. The parameter \<open>worker\<close> is what a
  submitted call would do to the state, were the name bound; the pool swallows what a
  worker raises, since no future's result is ever read.
\<close>

type_synonym worker = "retry_policy \<Rightarrow> string \<Rightarrow> string \<Rightarrow> world \<Rightarrow> world"

fun submit_all :: "worker \<Rightarrow> (string \<times> string) list \<Rightarrow> world \<Rightarrow> exn + world" where
  "submit_all worker [] w = Inr w"
| "submit_all worker ((url, dst) # tasks) w =
     (case lookup_name ''download_one'' of
        Inl e \<Rightarrow> Inl e
      | Inr u \<Rightarrow> submit_all worker tasks (worker make_session url dst w))"

text \<open>The rough post-check: how many destinations are missing or of size zero.\<close>

definition post_check :: "(string \<times> string) list \<Rightarrow> world \<Rightarrow> nat" where
  "post_check tasks w =
     length (filter (\<lambda>task. files w (snd task) = None \<or> file_size (files w) (snd task) \<le> 0) tasks)"

text \<open>
  \<open>download_data.main\<close> from the loaded manifest on: how the run ends (with the number of
  failures of the post-check when it gets there) and the state it leaves.
\<close>

definition dd_main :: "worker \<Rightarrow> string \<Rightarrow> string \<Rightarrow> string list \<Rightarrow> yaml \<Rightarrow> world \<Rightarrow> nat outcome \<times> world" where
  "dd_main worker data_dir trim_prefix include_prefix yaml_obj w =
     (case dd_tasks data_dir trim_prefix include_prefix yaml_obj of
        Exits n \<Rightarrow> (Exits n, w)
      | Raises e \<Rightarrow> (Raises e, w)
      | Returns tasks \<Rightarrow>
          (case submit_all worker tasks w of
             Inl e \<Rightarrow> (Raises e, w)
           | Inr w' \<Rightarrow> (Returns (post_check tasks w'), w')))"

lemma download_one_unbound: "lookup_name ''download_one'' = Inl NameError"
  by (simp add: lookup_name_def main_locals_def module_globals_def)

lemma submit_all_raises: "tasks \<noteq> [] \<Longrightarrow> submit_all worker tasks w = Inl NameError"
  by (cases tasks) (auto simp: download_one_unbound)

lemma dd_tasks_nonempty: "dd_tasks d t incl M = Returns tasks \<Longrightarrow> tasks \<noteq> []"
  by (auto simp: dd_tasks_def Let_def split: if_splits sum.splits)

lemma dd_main_cases:
  "dd_main worker d t incl M w =
     (case dd_tasks d t incl M of
        Exits n \<Rightarrow> (Exits n, w) | Raises e \<Rightarrow> (Raises e, w)
      | Returns tasks \<Rightarrow> (Raises NameError, w))"
  by (auto simp: dd_main_def submit_all_raises dest: dd_tasks_nonempty split: outcome.splits)

text \<open>
  C2, as the claim states it, fails: the \<open>NameError\<close> is raised in the main thread, while
  it evaluates the first \<open>ex.submit(download_one, ...)\<close>; no task is dispatched, and the
  error ends the run before the post-run inspection. For a manifest with one URL and a
  worker that would write the file, the run raises and changes nothing.
\<close>

theorem run_stops_before_post_check:
  "dd_main (\<lambda>policy url dst w. w\<lparr>files := (files w)(dst \<mapsto> 1)\<rparr>) ''/data'' ''/p/'' []
       (plain_manifest [''https://h/p/a/x'']) \<lparr>files = (\<lambda>p. None), requests = []\<rparr>
     = (Raises NameError, \<lparr>files = (\<lambda>p. None), requests = []\<rparr>)
   \<and> dd_tasks ''/data'' ''/p/'' [] (plain_manifest [''https://h/p/a/x''])
     = Returns [(''https://h/p/a/x'', ''/data/a/x'')]"
proof -
  have t: "dd_tasks ''/data'' ''/p/'' [] (plain_manifest [''https://h/p/a/x''])
     = Returns [(''https://h/p/a/x'', ''/data/a/x'')]"
    by (simp add: plain_manifest_def dd_tasks_def gather_urls_def find_urls_from_data_keys_def
      fallback_find_all_urls_def DATA_KEYS_def normalize_prefixes_def url_match_here_def
      py_isspace_def normalize_relative_path_def urlparse_path_def split_scheme_def
      split_netloc_def c0_or_space_def unsafe_url_byte_def is_ascii_alpha_def scheme_char_def
      ascii_lower_def netloc_delim_def uses_params_def lstrip_slash_def startswith_def
      path_parts_def filtered_out_def path_join_def path_str_def path_root_def)
  show ?thesis
    by (simp add: dd_main_cases t)
qed

text \<open>
  C2, amended. For every manifest and configuration, and whatever a download worker
  would do, a run of the download engine leaves every file as it was and sends no
  request. The run never reaches the post-run inspection: it exits with status 1 or 2
  when no URL is found or kept, it ends with the normalizer's exception when that raises,
  and otherwise, a task list having been built, it ends with the \<open>NameError\<close> that the
  undefined name \<open>download_one\<close> raises in the main thread.
\<close>

theorem run_writes_nothing:
  "snd (dd_main worker d t incl M w) = w
   \<and> fst (dd_main worker d t incl M w) \<noteq> Returns k
   \<and> (case dd_tasks d t incl M of
        Returns tasks \<Rightarrow> fst (dd_main worker d t incl M w) = Raises NameError
      | Exits n \<Rightarrow> fst (dd_main worker d t incl M w) = Exits n \<and> (n = 1 \<or> n = 2)
      | Raises e \<Rightarrow> fst (dd_main worker d t incl M w) = Raises e)"
  by (auto simp: dd_main_cases dd_tasks_def Let_def split: outcome.splits sum.splits if_splits)

theorem run_writes_nothing_witness:
  "snd (dd_main (\<lambda>policy url dst w. w\<lparr>files := (files w)(dst \<mapsto> 1)\<rparr>) ''/data'' ''/p/'' []
         (plain_manifest [''https://h/p/a/y'']) \<lparr>files = (\<lambda>p. None), requests = []\<rparr>)
     = \<lparr>files = (\<lambda>p. None), requests = []\<rparr>
   \<and> fst (dd_main (\<lambda>policy url dst w. w\<lparr>files := (files w)(dst \<mapsto> 1)\<rparr>) ''/data'' ''/p/'' []
         (plain_manifest [''https://h/p/a/y'']) \<lparr>files = (\<lambda>p. None), requests = []\<rparr>)
     \<noteq> Returns 0"
  using run_writes_nothing [of "\<lambda>policy url dst w. w\<lparr>files := (files w)(dst \<mapsto> 1)\<rparr>" "''/data''"
      "''/p/''" "[]" "plain_manifest [''https://h/p/a/y'']" "\<lparr>files = (\<lambda>p. None), requests = []\<rparr>" 0]
  by simp

text \<open>
  C4. The transfer with retry is never reached. For a manifest with one URL, whatever
  the worker and the retry policy of the session would do against a server that answers
  503 and then 200, the run ends with \<open>NameError\<close> and has sent no request, so no task
  gets a result.
\<close>

theorem transfer_never_attempted:
  "dd_main worker ''/data'' ''/p/'' [] (plain_manifest [''https://h/p/a/z''])
       \<lparr>files = (\<lambda>p. None), requests = []\<rparr>
     = (Raises NameError, \<lparr>files = (\<lambda>p. None), requests = []\<rparr>)"
proof -
  have t: "dd_tasks ''/data'' ''/p/'' [] (plain_manifest [''https://h/p/a/z''])
     = Returns [(''https://h/p/a/z'', ''/data/a/z'')]"
    by (simp add: plain_manifest_def dd_tasks_def gather_urls_def find_urls_from_data_keys_def
      fallback_find_all_urls_def DATA_KEYS_def normalize_prefixes_def url_match_here_def
      py_isspace_def normalize_relative_path_def urlparse_path_def split_scheme_def
      split_netloc_def c0_or_space_def unsafe_url_byte_def is_ascii_alpha_def scheme_char_def
      ascii_lower_def netloc_delim_def uses_params_def lstrip_slash_def startswith_def
      path_parts_def filtered_out_def path_join_def path_str_def path_root_def)
  show ?thesis
    by (simp add: dd_main_cases t)
qed

theorem transfer_never_attempted_witness:
  "dd_main (\<lambda>policy url dst w. w\<lparr>files := (files w)(dst \<mapsto> 1),
                                        requests := requests w @ [(GET, url), (GET, url)]\<rparr>)
       ''/data'' ''/p/'' [] (plain_manifest [''https://h/p/a/z''])
       \<lparr>files = (\<lambda>p. None), requests = []\<rparr>
     = (Raises NameError, \<lparr>files = (\<lambda>p. None), requests = []\<rparr>)"
  using transfer_never_attempted [of "\<lambda>policy url dst w. w\<lparr>files := (files w)(dst \<mapsto> 1),
                                        requests := requests w @ [(GET, url), (GET, url)]\<rparr>"]
  by simp

section \<open>The script synthesizer's text\<close>

text \<open>
  \<open>shlex.quote\<close> of the library: a non-empty string of safe characters is left as it is;
  any other string is put in single quotes, each single quote of its own written
  \<open>'"'"'\<close>.
\<close>

definition shell_safe :: "char \<Rightarrow> bool" where
  "shell_safe c =
     (is_ascii_alpha c \<or> is_ascii_digit c \<or> c \<in> set ''_@%+=:,./-'')"

definition quote_body :: "string \<Rightarrow> string" where
  "quote_body s = concat (map (\<lambda>c. if c = squote then [squote, dquote, squote, dquote, squote] else [c]) s)"

definition shlex_quote :: "string \<Rightarrow> string" where
  "shlex_quote s =
     (if s = [] then [squote, squote]
      else if list_all shell_safe s then s
      else [squote] @ quote_body s @ [squote])"

text \<open>\<open>HEADER.format(data_dir=q)\<close> and \<open>LINE.format(url=url, rel=rel)\<close> of \<open>make_wget.py\<close>.\<close>

definition HEADER :: "string \<Rightarrow> string" where
  "HEADER q =
     ''#!/usr/bin/env bash'' @ [LF] @
     ''set -Eeuo pipefail'' @ [LF] @
     [LF] @
     ''if ! command -v wget >/dev/null 2>&1; then'' @ [LF] @
     ''  echo '' @ [dquote] @ ''Error: wget is not installed.'' @ [dquote] @ '' >&2'' @ [LF] @
     ''  exit 1'' @ [LF] @
     ''fi'' @ [LF] @
     [LF] @
     ''DATA_DIR='' @ q @ [LF] @
     ''echo '' @ [dquote] @ ''Saving to: $DATA_DIR'' @ [dquote] @ [LF] @
     ''mkdir -p '' @ [dquote] @ ''$DATA_DIR'' @ [dquote] @ [LF]"

definition LINE :: "string \<Rightarrow> string \<Rightarrow> string" where
  "LINE url rel =
     [LF] @
     ''# '' @ url @ [LF] @
     ''mkdir -p '' @ [dquote] @ ''$(dirname '' @ [dquote] @ ''$DATA_DIR/'' @ rel @ [dquote] @ '')''
        @ [dquote] @ [LF] @
     ''wget -c --retry-connrefused -t 5 --timeout=60 '' @ [dquote] @ url @ [dquote] @ '' -O ''
        @ [dquote] @ ''$DATA_DIR/'' @ rel @ [dquote] @ [LF]"

text \<open>The script that \<open>make_wget.main\<close> writes for a resolved data directory and its pairs.\<close>

definition script_text :: "string \<Rightarrow> (string \<times> string) list \<Rightarrow> string" where
  "script_text data_dir pairs =
     HEADER (shlex_quote data_dir) @ concat (map (\<lambda>p. LINE (fst p) (snd p)) pairs)"

section \<open>The target verifier\<close>

text \<open>
  The lines of a text file as iteration over it gives them, here without their
  terminators (\<open>strip\<close> removes those first thing): a line ends at LF, at CR, or at CR LF.
\<close>

fun lines_from :: "string \<Rightarrow> string \<Rightarrow> string list" where
  "lines_from cur [] = (if cur = [] then [] else [cur])"
| "lines_from cur [c] = (if c = LF \<or> c = CR then [cur] else [cur @ [c]])"
| "lines_from cur (c # d # cs) =
     (if c = CR \<and> d = LF then cur # lines_from [] cs
      else if c = LF \<or> c = CR then cur # lines_from [] (d # cs)
      else lines_from (cur @ [c]) (d # cs))"

definition file_lines :: "string \<Rightarrow> string list" where
  "file_lines text = lines_from [] text"

text \<open>
  \<open>shlex.split(line, posix=True)\<close> of the library, as its tokenizer works with white
  space splitting and without comments: between tokens, in a word, in quotes, after a
  backslash (remembering the state to return to). The token so far and whether a quote
  was seen go along; an unclosed quote or a backslash at the end raises \<open>ValueError\<close>.
\<close>

datatype lex_state = LSpace | LWord | LQuote char | LEsc "char option"

definition sh_space :: "char \<Rightarrow> bool" where
  "sh_space c = (c = CHR '' '' \<or> c = TAB \<or> c = CR \<or> c = LF)"

fun shlex_run :: "lex_state \<Rightarrow> string \<Rightarrow> bool \<Rightarrow> string \<Rightarrow> exn + string list" where
  "shlex_run LSpace token quoted [] = Inr []"
| "shlex_run LWord token quoted [] = Inr (if token \<noteq> [] \<or> quoted then [token] else [])"
| "shlex_run (LQuote qc) token quoted [] = Inl ValueError"
| "shlex_run (LEsc back) token quoted [] = Inl ValueError"
| "shlex_run LSpace token quoted (c # cs) =
     (if sh_space c then shlex_run LSpace [] False cs
      else if c = backslash then shlex_run (LEsc None) [] False cs
      else if c = squote \<or> c = dquote then shlex_run (LQuote c) [] True cs
      else shlex_run LWord [c] False cs)"
| "shlex_run (LQuote qc) token quoted (c # cs) =
     (if c = qc then shlex_run LWord token True cs
      else if c = backslash \<and> qc = dquote then shlex_run (LEsc (Some qc)) token True cs
      else shlex_run (LQuote qc) (token @ [c]) True cs)"
| "shlex_run (LEsc None) token quoted (c # cs) = shlex_run LWord (token @ [c]) quoted cs"
| "shlex_run (LEsc (Some qc)) token quoted (c # cs) =
     shlex_run (LQuote qc)
       ((if c \<noteq> backslash \<and> c \<noteq> qc then token @ [backslash] else token) @ [c]) quoted cs"
| "shlex_run LWord token quoted (c # cs) =
     (if sh_space c
      then (if token \<noteq> [] \<or> quoted
            then (case shlex_run LSpace [] False cs of
                    Inl e \<Rightarrow> Inl e | Inr tokens \<Rightarrow> Inr (token # tokens))
            else shlex_run LSpace [] False cs)
      else if c = squote \<or> c = dquote then shlex_run (LQuote c) token quoted cs
      else if c = backslash then shlex_run (LEsc None) token quoted cs
      else shlex_run LWord (token @ [c]) quoted cs)"

definition shlex_split :: "string \<Rightarrow> exn + string list" where
  "shlex_split line = shlex_run LSpace [] False line"

text \<open>The token after each \<open>-O\<close> that has one.\<close>

fun tokens_after_O :: "string list \<Rightarrow> string list" where
  "tokens_after_O [] = []"
| "tokens_after_O [tok] = []"
| "tokens_after_O (tok # nxt # toks) =
     (if tok = ''-O'' then nxt # tokens_after_O (nxt # toks) else tokens_after_O (nxt # toks))"

definition targets_of_line :: "string \<Rightarrow> string list" where
  "targets_of_line raw =
     (let line = py_strip raw
      in if line = [] \<or> startswith line ''#'' then []
         else (case shlex_split line of Inl e \<Rightarrow> [] | Inr tokens \<Rightarrow> tokens_after_O tokens))"

text \<open>\<open>extract_targets_from_sh\<close>, on the text of the script.\<close>

definition extract_targets_from_sh :: "string \<Rightarrow> string list" where
  "extract_targets_from_sh text = concat (map targets_of_line (file_lines text))"

text \<open>
  What the verifier asks of the file system: whether a path is a regular file, and the
  resolved form of a path. Modification times are there to be ignored.
\<close>

record fsys =
  is_file :: "string \<Rightarrow> bool"
  resolve :: "string \<Rightarrow> string"
  mtime :: "string \<Rightarrow> nat"

text \<open>
  \<open>Path(a).relative_to(Path(b))\<close>: the segments of \<open>a\<close> after those of \<open>b\<close> (\<open>.\<close> when
  none are left), or \<open>None\<close> for the \<open>ValueError\<close> when \<open>b\<close> does not begin \<open>a\<close>.
  \<open>Path(a).name\<close> is the last segment, empty when there is none.
\<close>

definition relative_to :: "string \<Rightarrow> string \<Rightarrow> string option" where
  "relative_to a b =
     (if path_root a = path_root b \<and> prefix (path_parts b) (path_parts a)
      then Some (path_str [] (drop (length (path_parts b)) (path_parts a)))
      else None)"

definition path_name :: "string \<Rightarrow> string" where
  "path_name a = (if path_parts a = [] then [] else last (path_parts a))"

text \<open>
  \<open>normalize_to_relative\<close>. The data directory is a string, the empty string standing
  for \<open>None\<close> as well (the code only tests its truth value).
\<close>

definition normalize_to_relative :: "fsys \<Rightarrow> string \<Rightarrow> string \<Rightarrow> string \<times> string option" where
  "normalize_to_relative fs target_token data_dir =
     (if startswith target_token ''$DATA_DIR/''
      then (let rel = drop (length ''$DATA_DIR/'') target_token
            in (rel, if data_dir \<noteq> [] then Some (path_join data_dir rel) else None))
      else if startswith target_token ''${DATA_DIR}/''
      then (let rel = drop (length ''${DATA_DIR}/'') target_token
            in (rel, if data_dir \<noteq> [] then Some (path_join data_dir rel) else None))
      else if path_root target_token \<noteq> []
      then (if data_dir \<noteq> []
            then (case relative_to (resolve fs target_token) (resolve fs data_dir) of
                    Some rel \<Rightarrow> (rel, Some (resolve fs target_token))
                  | None \<Rightarrow> (path_name target_token, Some (resolve fs target_token)))
            else (path_str (path_root target_token) (path_parts target_token),
                  Some (path_str (path_root target_token) (path_parts target_token))))
      else (target_token, if data_dir \<noteq> [] then Some (path_join data_dir target_token) else None))"

text \<open>The loops of \<open>check_targets.main\<close>: filter, first occurrence of each \<open>rel\<close>, existence.\<close>

fun filter_loop :: "fsys \<Rightarrow> string \<Rightarrow> string \<Rightarrow> string list \<Rightarrow> (string \<times> string option) list" where
  "filter_loop fs data_dir filter_prefix [] = []"
| "filter_loop fs data_dir filter_prefix (tok # toks) =
     (let (rel, abs_path) = normalize_to_relative fs tok data_dir
      in if filter_prefix \<noteq> [] \<and> \<not> startswith rel filter_prefix
         then filter_loop fs data_dir filter_prefix toks
         else (rel, abs_path) # filter_loop fs data_dir filter_prefix toks)"

fun unique_loop :: "string list \<Rightarrow> (string \<times> string option) list \<Rightarrow> (string \<times> string option) list" where
  "unique_loop seen [] = []"
| "unique_loop seen ((rel, ab) # pairs) =
     (if rel \<in> set seen then unique_loop seen pairs
      else (rel, ab) # unique_loop (rel # seen) pairs)"

definition abs_of :: "string \<Rightarrow> string \<times> string option \<Rightarrow> string" where
  "abs_of data_dir pair =
     (case snd pair of
        Some ab \<Rightarrow> if ab \<noteq> [] then ab else path_join data_dir (fst pair)
      | None \<Rightarrow> path_join data_dir (fst pair))"

definition existing_of :: "fsys \<Rightarrow> string \<Rightarrow> (string \<times> string option) list \<Rightarrow> (string \<times> string) list" where
  "existing_of fs data_dir pairs_unique =
     map (\<lambda>p. (fst p, abs_of data_dir p))
         (filter (\<lambda>p. is_file fs (abs_of data_dir p)) pairs_unique)"

definition missing_of :: "fsys \<Rightarrow> string \<Rightarrow> (string \<times> string option) list \<Rightarrow> (string \<times> string) list" where
  "missing_of fs data_dir pairs_unique =
     map (\<lambda>p. (fst p, abs_of data_dir p))
         (filter (\<lambda>p. \<not> is_file fs (abs_of data_dir p)) pairs_unique)"

text \<open>
  What the verifier prints: the counts, the missing targets, and the last existing one in
  script order, or that there is none.
\<close>

record report =
  total_unique :: nat
  n_existing :: nat
  n_missing :: nat
  missing :: "(string \<times> string) list"
  last_existing :: "(string \<times> string) option"

text \<open>
  \<open>check_targets.main\<close> from the text of the script on, with the resolved data directory
  (empty when none could be found) and the filter prefix (empty when none was given).
\<close>

definition ct_main :: "fsys \<Rightarrow> string \<Rightarrow> string \<Rightarrow> string \<Rightarrow> report outcome" where
  "ct_main fs data_dir filter_prefix text =
     (if data_dir = [] then Exits 2
      else (let targets_tokens = extract_targets_from_sh text
            in if targets_tokens = [] then Exits 3
               else (let rel_abs_pairs = filter_loop fs data_dir filter_prefix targets_tokens
                     in if rel_abs_pairs = [] then Exits 4
                        else (let pairs_unique = unique_loop [] rel_abs_pairs;
                                  existing = existing_of fs data_dir pairs_unique;
                                  missing = missing_of fs data_dir pairs_unique
                              in Returns
                                   \<lparr>total_unique = length pairs_unique,
                                    n_existing = length existing,
                                    n_missing = length missing,
                                    missing = missing,
                                    last_existing =
                                      (if existing \<noteq> [] then Some (last existing) else None)\<rparr>))))"

section \<open>Filtering by prefix\<close>

lemma filtered_out_iff:
  "(\<not> filtered_out incl rel) = (incl = [] \<or> (\<exists>p \<in> set incl. startswith rel p))"
  by (auto simp: filtered_out_def list_ex_iff)

lemma set_normalize_prefixes:
  "set (normalize_prefixes args) =
     {lstrip_slash (py_strip token) | token raw.
        raw \<in> set args \<and> token \<in> set (split_on CHR '','' raw) \<and> py_strip token \<noteq> []}"
  by (auto simp: normalize_prefixes_def)

lemma build_tasks_kept:
  "build_tasks d t incl urls = Inr tasks \<Longrightarrow>
   map fst tasks =
     filter (\<lambda>u. case normalize_relative_path u t of
                    Inl e \<Rightarrow> False | Inr rel \<Rightarrow> \<not> filtered_out incl rel) urls"
proof (induction urls arbitrary: tasks)
  case Nil
  then show ?case by simp
next
  case (Cons u urls)
  then show ?case by (auto split: sum.splits if_splits)
qed

lemma mw_pairs_kept:
  "mw_pairs t incl (map YStr urls) = Inr pairs \<Longrightarrow>
   map fst pairs =
     filter (\<lambda>u. case mw_normalize_relative_path u t of
                    Inl e \<Rightarrow> False | Inr rel \<Rightarrow> \<not> filtered_out incl rel) urls"
proof (induction urls arbitrary: pairs)
  case Nil
  then show ?case by simp
next
  case (Cons u urls)
  then show ?case by (auto split: sum.splits if_splits)
qed

lemma filter_loop_kept:
  "map fst (filter_loop fs d fp toks) =
     filter (\<lambda>rel. fp = [] \<or> startswith rel fp)
            (map (\<lambda>tok. fst (normalize_to_relative fs tok d)) toks)"
  by (induction toks) (auto simp: Let_def split: prod.splits)

text \<open>
  C9, as the claim states it, fails for the target verifier, which takes one filter
  prefix and matches it as it is: with the prefix \<open>/a/\<close> the engine keeps the relative
  path \<open>a/x\<close>, and the verifier drops the target \<open>$DATA_DIR/a/x\<close>.
\<close>

theorem verifier_prefix_is_literal:
  "normalize_prefixes [''/a/''] = [''a/'']
   \<and> \<not> filtered_out (normalize_prefixes [''/a/'']) ''a/x''
   \<and> filter_loop \<lparr>is_file = (\<lambda>p. True), resolve = (\<lambda>p. p), mtime = (\<lambda>p. 0)\<rparr>
        ''/data'' ''/a/'' [''$DATA_DIR/a/x''] = []
   \<and> filter_loop \<lparr>is_file = (\<lambda>p. True), resolve = (\<lambda>p. p), mtime = (\<lambda>p. 0)\<rparr>
        ''/data'' ''a/,b/'' [''$DATA_DIR/a/x''] = []"
  by (simp add: normalize_prefixes_def py_strip_def py_isspace_def lstrip_slash_def
      filtered_out_def startswith_def normalize_to_relative_def Let_def)

text \<open>
  C9, amended. In the download engine and in the script synthesizer the include-prefix
  arguments are split at commas, each piece is stripped of surrounding white space, empty
  pieces are dropped and leading slashes are removed; an item is kept exactly when no
  prefix is left or its relative path starts, character for character, with one of them,
  so no include-prefix keeps every item. The target verifier takes a single filter
  prefix as it is, neither split nor stripped: a target is kept exactly when the prefix
  is empty or its relative path starts with it.
\<close>

theorem include_prefix_filtering:
  "set (normalize_prefixes args) =
     {lstrip_slash (py_strip token) | token raw.
        raw \<in> set args \<and> token \<in> set (split_on CHR '','' raw) \<and> py_strip token \<noteq> []}
   \<and> mw_normalize_prefixes args = normalize_prefixes args
   \<and> normalize_prefixes [] = []
   \<and> (\<not> filtered_out incl rel) = (incl = [] \<or> (\<exists>p \<in> set incl. startswith rel p))
   \<and> (build_tasks d t incl urls = Inr tasks \<longrightarrow>
        map fst tasks =
          filter (\<lambda>u. case normalize_relative_path u t of
                         Inl e \<Rightarrow> False | Inr rel \<Rightarrow> \<not> filtered_out incl rel) urls)
   \<and> (mw_pairs t incl (map YStr urls) = Inr pairs \<longrightarrow>
        map fst pairs =
          filter (\<lambda>u. case mw_normalize_relative_path u t of
                         Inl e \<Rightarrow> False | Inr rel \<Rightarrow> \<not> filtered_out incl rel) urls)
   \<and> map fst (filter_loop fs dd fp toks) =
        filter (\<lambda>rel. fp = [] \<or> startswith rel fp)
               (map (\<lambda>tok. fst (normalize_to_relative fs tok dd)) toks)"
proof (intro conjI impI)
  show "set (normalize_prefixes args) =
     {lstrip_slash (py_strip token) | token raw.
        raw \<in> set args \<and> token \<in> set (split_on CHR '','' raw) \<and> py_strip token \<noteq> []}"
    by (rule set_normalize_prefixes)
  show "mw_normalize_prefixes args = normalize_prefixes args" by (rule prefixes_same)
  show "normalize_prefixes [] = []" by (simp add: normalize_prefixes_def)
  show "(\<not> filtered_out incl rel) = (incl = [] \<or> (\<exists>p \<in> set incl. startswith rel p))"
    by (rule filtered_out_iff)
  show "map fst (filter_loop fs dd fp toks) =
        filter (\<lambda>rel. fp = [] \<or> startswith rel fp)
               (map (\<lambda>tok. fst (normalize_to_relative fs tok dd)) toks)"
    by (rule filter_loop_kept)
next
  assume "build_tasks d t incl urls = Inr tasks"
  then show "map fst tasks =
          filter (\<lambda>u. case normalize_relative_path u t of
                         Inl e \<Rightarrow> False | Inr rel \<Rightarrow> \<not> filtered_out incl rel) urls"
    by (rule build_tasks_kept)
next
  assume "mw_pairs t incl (map YStr urls) = Inr pairs"
  then show "map fst pairs =
          filter (\<lambda>u. case mw_normalize_relative_path u t of
                         Inl e \<Rightarrow> False | Inr rel \<Rightarrow> \<not> filtered_out incl rel) urls"
    by (rule mw_pairs_kept)
qed

theorem include_prefix_filtering_witness:
  "normalize_prefixes ['' /a/ , b/'', '',''] = [''a/'', ''b/'']
   \<and> build_tasks ''/data'' ''/p/'' (normalize_prefixes ['' /a/ , b/'', '',''])
        [''https://h/p/a/x'', ''https://h/p/A/x'', ''https://h/p/b/y'', ''https://h/p/c/z'']
       = Inr [(''https://h/p/a/x'', ''/data/a/x''), (''https://h/p/b/y'', ''/data/b/y'')]
   \<and> mw_pairs ''/p/'' (normalize_prefixes ['' /a/ , b/'', '',''])
        (map YStr [''https://h/p/a/x'', ''https://h/p/A/x'', ''https://h/p/b/y'', ''https://h/p/c/z''])
       = Inr [(''https://h/p/a/x'', ''a/x''), (''https://h/p/b/y'', ''b/y'')]
   \<and> map fst [(''https://h/p/a/x'', ''/data/a/x''), (''https://h/p/b/y'', ''/data/b/y'')]
       = [''https://h/p/a/x'', ''https://h/p/b/y'']
   \<and> map fst (filter_loop \<lparr>is_file = (\<lambda>p. True), resolve = (\<lambda>p. p), mtime = (\<lambda>p. 0)\<rparr>
        ''/data'' ''a/'' [''$DATA_DIR/a/x'', ''$DATA_DIR/b/y'']) = [''a/x'']"
proof -
  have n: "normalize_prefixes ['' /a/ , b/'', '',''] = [''a/'', ''b/'']"
    by (simp add: normalize_prefixes_def py_strip_def py_isspace_def lstrip_slash_def)
  have b: "build_tasks ''/data'' ''/p/'' [''a/'', ''b/'']
        [''https://h/p/a/x'', ''https://h/p/A/x'', ''https://h/p/b/y'', ''https://h/p/c/z'']
       = Inr [(''https://h/p/a/x'', ''/data/a/x''), (''https://h/p/b/y'', ''/data/b/y'')]"
    by (simp add: normalize_relative_path_def urlparse_path_def split_scheme_def
      split_netloc_def c0_or_space_def unsafe_url_byte_def is_ascii_alpha_def scheme_char_def
      ascii_lower_def netloc_delim_def uses_params_def lstrip_slash_def startswith_def
      path_parts_def filtered_out_def path_join_def path_str_def path_root_def)
  have m: "mw_pairs ''/p/'' [''a/'', ''b/'']
        (map YStr [''https://h/p/a/x'', ''https://h/p/A/x'', ''https://h/p/b/y'', ''https://h/p/c/z''])
       = Inr [(''https://h/p/a/x'', ''a/x''), (''https://h/p/b/y'', ''b/y'')]"
    by (simp add: mw_normalize_relative_path_def urlparse_path_def split_scheme_def
      split_netloc_def c0_or_space_def unsafe_url_byte_def is_ascii_alpha_def scheme_char_def
      ascii_lower_def netloc_delim_def uses_params_def lstrip_slash_def startswith_def
      filtered_out_def)
  have f: "map fst (filter_loop \<lparr>is_file = (\<lambda>p. True), resolve = (\<lambda>p. p), mtime = (\<lambda>p. 0)\<rparr>
        ''/data'' ''a/'' [''$DATA_DIR/a/x'', ''$DATA_DIR/b/y'']) = [''a/x'']"
    by (simp add: normalize_to_relative_def startswith_def Let_def)
  show ?thesis
    using include_prefix_filtering [of "['' /a/ , b/'', '','']" "[''a/'', ''b/'']" "''a/x''"
        "''/data''" "''/p/''"
        "[''https://h/p/a/x'', ''https://h/p/A/x'', ''https://h/p/b/y'', ''https://h/p/c/z'']"
        "[(''https://h/p/a/x'', ''/data/a/x''), (''https://h/p/b/y'', ''/data/b/y'')]"
        "[(''https://h/p/a/x'', ''a/x''), (''https://h/p/b/y'', ''b/y'')]"
        "\<lparr>is_file = (\<lambda>p. True), resolve = (\<lambda>p. p), mtime = (\<lambda>p. 0)\<rparr>" "''/data''" "''a/''"
        "[''$DATA_DIR/a/x'', ''$DATA_DIR/b/y'']"]
      n b m f
    by simp
qed

section \<open>The last existing target\<close>

text \<open>The elements of a list in the order of their first occurrence.\<close>

fun first_occurrences :: "'a list \<Rightarrow> 'a list" where
  "first_occurrences [] = []"
| "first_occurrences (x # xs) = x # filter (\<lambda>y. y \<noteq> x) (first_occurrences xs)"

lemma unique_loop_rels:
  "map fst (unique_loop seen ps) = filter (\<lambda>r. r \<notin> set seen) (first_occurrences (map fst ps))"
proof (induction ps arbitrary: seen)
  case Nil
  then show ?case by simp
next
  case (Cons p ps)
  obtain rel ab where p: "p = (rel, ab)" by (cases p)
  have e: "filter (\<lambda>r. r \<notin> set seen \<and> r \<noteq> rel) xs = filter (\<lambda>r. r \<noteq> rel \<and> r \<notin> set seen) xs"
    for xs :: "string list"
    by (rule filter_cong) auto
  show ?case
  proof (cases "rel \<in> set seen")
    case True
    then have "filter (\<lambda>r. r \<notin> set seen) xs = filter (\<lambda>r. r \<noteq> rel \<and> r \<notin> set seen) xs"
      for xs :: "string list"
      by (intro filter_cong) auto
    then show ?thesis using True by (simp add: p Cons.IH)
  next
    case False
    then show ?thesis by (simp add: p Cons.IH e)
  qed
qed

lemma unique_loop_first:
  "(rel, ab) \<in> set (unique_loop seen ps) \<Longrightarrow> map_of ps rel = Some ab"
proof (induction ps arbitrary: seen)
  case Nil
  then show ?case by simp
next
  case (Cons p ps)
  obtain r a where p: "p = (r, a)" by (cases p)
  show ?case
  proof (cases "r \<in> set seen")
    case True
    with Cons.prems p have m: "(rel, ab) \<in> set (unique_loop seen ps)" by simp
    have "rel \<in> fst ` set (unique_loop seen ps)" using m by force
    then have "rel \<in> set (map fst (unique_loop seen ps))" by simp
    then have "rel \<notin> set seen" unfolding unique_loop_rels by simp
    then have "rel \<noteq> r" using True by auto
    then show ?thesis using Cons.IH[OF m] p by simp
  next
    case False
    show ?thesis
    proof (cases "(rel, ab) = (r, a)")
      case True
      then show ?thesis using p by simp
    next
      case neq: False
      with Cons.prems p False have m: "(rel, ab) \<in> set (unique_loop (r # seen) ps)" by auto
      have "rel \<in> fst ` set (unique_loop (r # seen) ps)" using m by force
      then have "rel \<in> set (map fst (unique_loop (r # seen) ps))" by simp
      then have "rel \<notin> set (r # seen)" unfolding unique_loop_rels by simp
      then have "rel \<noteq> r" by auto
      then show ?thesis using Cons.IH[OF m] p by simp
    qed
  qed
qed

lemma last_filter_split:
  "filter P xs \<noteq> [] \<Longrightarrow>
   \<exists>pre post. xs = pre @ last (filter P xs) # post \<and> P (last (filter P xs))
              \<and> list_all (\<lambda>x. \<not> P x) post"
proof (induction xs rule: rev_induct)
  case Nil
  then show ?case by simp
next
  case (snoc x xs)
  show ?case
  proof (cases "P x")
    case True
    then have l: "last (filter P (xs @ [x])) = x" by simp
    have "xs @ [x] = xs @ last (filter P (xs @ [x])) # [] \<and> P (last (filter P (xs @ [x])))
        \<and> list_all (\<lambda>x. \<not> P x) []"
      using True l by simp
    then show ?thesis by blast
  next
    case False
    then have f: "filter P (xs @ [x]) = filter P xs" by simp
    with snoc.prems have "filter P xs \<noteq> []" by simp
    from snoc.IH[OF this] obtain pre post where
      s: "xs = pre @ last (filter P xs) # post" and p: "P (last (filter P xs))"
      and n: "list_all (\<lambda>x. \<not> P x) post" by blast
    have "xs @ [x] = pre @ last (filter P (xs @ [x])) # (post @ [x])"
      using s f by simp
    moreover have "list_all (\<lambda>x. \<not> P x) (post @ [x])" using n False by simp
    ultimately show ?thesis using p f by metis
  qed
qed

text \<open>
  What \<open>main\<close> reports as last existing, read off the targets in their order of first
  occurrence: nothing when none of them is a file, and otherwise the target that is a
  file and after which no target is.
\<close>

definition is_last_existing ::
  "fsys \<Rightarrow> string \<Rightarrow> (string \<times> string option) list \<Rightarrow> (string \<times> string) option \<Rightarrow> bool" where
  "is_last_existing fs data_dir pairs_unique result =
     (case result of
        None \<Rightarrow> list_all (\<lambda>p. \<not> is_file fs (abs_of data_dir p)) pairs_unique
      | Some (rel, ab) \<Rightarrow>
          (\<exists>pre a post. pairs_unique = pre @ (rel, a) # post
             \<and> ab = abs_of data_dir (rel, a) \<and> is_file fs ab
             \<and> list_all (\<lambda>p. \<not> is_file fs (abs_of data_dir p)) post))"

lemma last_existing_correct:
  "is_last_existing fs d U
     (if existing_of fs d U \<noteq> [] then Some (last (existing_of fs d U)) else None)"
proof (cases "filter (\<lambda>p. is_file fs (abs_of d p)) U = []")
  case True
  then have "list_all (\<lambda>p. \<not> is_file fs (abs_of d p)) U"
    by (simp add: filter_empty_conv list_all_iff)
  then show ?thesis using True by (simp add: is_last_existing_def existing_of_def)
next
  case False
  let ?P = "\<lambda>p. is_file fs (abs_of d p)"
  let ?x = "last (filter ?P U)"
  from last_filter_split[OF False] obtain pre post where
    s: "U = pre @ ?x # post" and p: "?P ?x" and n: "list_all (\<lambda>x. \<not> ?P x) post" by blast
  have l: "last (existing_of fs d U) = (fst ?x, abs_of d ?x)"
    using False by (simp add: existing_of_def last_map)
  have "\<exists>pre a post. U = pre @ (fst ?x, a) # post
             \<and> abs_of d ?x = abs_of d (fst ?x, a) \<and> is_file fs (abs_of d ?x)
             \<and> list_all (\<lambda>p. \<not> is_file fs (abs_of d p)) post"
    using s p n by (intro exI[of _ pre] exI[of _ "snd ?x"] exI[of _ post]) simp
  then show ?thesis
    using False by (simp add: is_last_existing_def existing_of_def l last_map)
qed

lemma ct_main_mtime:
  "ct_main (fs\<lparr>mtime := m\<rparr>) d fp text = ct_main fs d fp text"
proof -
  have n: "normalize_to_relative (fs\<lparr>mtime := m\<rparr>) tok d = normalize_to_relative fs tok d" for tok
    by (simp add: normalize_to_relative_def split: option.splits)
  have f: "filter_loop (fs\<lparr>mtime := m\<rparr>) d fp toks = filter_loop fs d fp toks" for toks
    by (induction toks) (auto simp: n split: prod.splits)
  have e: "existing_of (fs\<lparr>mtime := m\<rparr>) d U = existing_of fs d U" for U
    by (simp add: existing_of_def)
  have mi: "missing_of (fs\<lparr>mtime := m\<rparr>) d U = missing_of fs d U" for U
    by (simp add: missing_of_def)
  show ?thesis
    by (simp add: ct_main_def Let_def f e mi)
qed

text \<open>
  C8. Whenever the verifier gets to its report, the targets are taken in the order of
  their first occurrence in the script, each with the path of its first occurrence; the
  reported last existing target is the one that is a file and after which, in that
  order, no target is a file; when no target is a file the report says so instead of
  reading the empty list; and the report does not depend on modification times.
\<close>

theorem last_existing_by_script_order:
  "(ct_main fs d fp text = Returns r \<longrightarrow>
      is_last_existing fs d
        (unique_loop [] (filter_loop fs d fp (extract_targets_from_sh text))) (last_existing r)
      \<and> map fst (unique_loop [] (filter_loop fs d fp (extract_targets_from_sh text)))
          = first_occurrences (map fst (filter_loop fs d fp (extract_targets_from_sh text))))
   \<and> ct_main (fs\<lparr>mtime := m\<rparr>) d fp text = ct_main fs d fp text"
proof (intro conjI impI)
  assume a: "ct_main fs d fp text = Returns r"
  let ?U = "unique_loop [] (filter_loop fs d fp (extract_targets_from_sh text))"
  have "last_existing r =
      (if existing_of fs d ?U \<noteq> [] then Some (last (existing_of fs d ?U)) else None)"
    using a by (auto simp: ct_main_def Let_def split: if_splits)
  then show "is_last_existing fs d ?U (last_existing r)"
    using last_existing_correct[of fs d ?U] by simp
next
  show "map fst (unique_loop [] (filter_loop fs d fp (extract_targets_from_sh text)))
          = first_occurrences (map fst (filter_loop fs d fp (extract_targets_from_sh text)))"
    by (simp add: unique_loop_rels)
next
  show "ct_main (fs\<lparr>mtime := m\<rparr>) d fp text = ct_main fs d fp text"
    by (rule ct_main_mtime)
qed

section \<open>From the synthesized script back to its targets\<close>

text \<open>
  The characters that a URL and a relative path must not have for the script to read
  back as written: a URL sits inside double quotes and on a comment line; a relative
  path also stands bare inside the \<open>mkdir\<close> line.
\<close>

definition no_break :: "char \<Rightarrow> bool" where
  "no_break c = (c \<noteq> LF \<and> c \<noteq> CR)"

definition dq_plain :: "char \<Rightarrow> bool" where
  "dq_plain c = (c \<noteq> dquote \<and> c \<noteq> backslash)"

definition word_plain :: "char \<Rightarrow> bool" where
  "word_plain c = (\<not> sh_space c \<and> c \<noteq> squote \<and> c \<noteq> dquote \<and> c \<noteq> backslash)"

definition url_ok :: "string \<Rightarrow> bool" where
  "url_ok u = (list_all (\<lambda>c. dq_plain c \<and> no_break c) u \<and> u \<noteq> ''-O'')"

definition rel_ok :: "string \<Rightarrow> bool" where
  "rel_ok r = list_all word_plain r"

definition pair_ok :: "string \<times> string \<Rightarrow> bool" where
  "pair_ok p = (url_ok (fst p) \<and> rel_ok (snd p))"

definition dir_ok :: "string \<Rightarrow> bool" where
  "dir_ok d = list_all no_break d"

subsection \<open>Lines\<close>

lemma lines_from_step:
  "no_break c \<Longrightarrow> lines_from cur (c # x # xs) = lines_from (cur @ [c]) (x # xs)"
  by (simp add: no_break_def)

lemma lines_from_LF: "lines_from cur (LF # rest) = cur # lines_from [] rest"
  by (cases rest) simp_all

lemma lines_from_line:
  "list_all no_break l \<Longrightarrow> lines_from cur (l @ LF # rest) = (cur @ l) # lines_from [] rest"
proof (induction l arbitrary: cur)
  case Nil
  then show ?case by (simp add: lines_from_LF)
next
  case (Cons c l)
  obtain x xs where t: "l @ LF # rest = x # xs" by (cases "l @ LF # rest") auto
  have "lines_from cur ((c # l) @ LF # rest) = lines_from (cur @ [c]) (l @ LF # rest)"
    using Cons.prems lines_from_step[of c cur x xs] t by simp
  then show ?case using Cons by simp
qed

lemma file_lines_line:
  "list_all no_break l \<Longrightarrow> file_lines (l @ LF # rest) = l # file_lines rest"
  using lines_from_line[of l "[]" rest] by (simp add: file_lines_def)

subsection \<open>Stripping\<close>

lemma py_strip_keeps_head:
  assumes "\<not> py_isspace c"
  shows "py_strip (c # s) = c # rev (dropWhile py_isspace (rev s))"
proof -
  have "dropWhile py_isspace (rev s @ [c]) = dropWhile py_isspace (rev s) @ [c]"
    using assms by (simp add: dropWhile_append3)
  then show ?thesis using assms by (simp add: py_strip_def)
qed

lemma py_strip_id:
  assumes "s \<noteq> []" and "\<not> py_isspace (hd s)" and "\<not> py_isspace (last s)"
  shows "py_strip s = s"
proof -
  obtain c t where s: "s = c # t" using assms(1) by (cases s) auto
  have "dropWhile py_isspace (rev s) = rev s"
    using assms(1,3) by (cases "rev s") (auto simp: last_rev hd_rev)
  then show ?thesis using assms(2) s by (simp add: py_strip_def)
qed

subsection \<open>The tokenizer on runs of plain characters\<close>

lemma shlex_word_run:
  "list_all word_plain w \<Longrightarrow>
   shlex_run LWord token quoted (w @ rest) = shlex_run LWord (token @ w) quoted rest"
  by (induction w arbitrary: token) (simp_all add: word_plain_def)

lemma shlex_dquote_run:
  "list_all dq_plain w \<Longrightarrow>
   shlex_run (LQuote dquote) token True (w @ rest) = shlex_run (LQuote dquote) (token @ w) True rest"
  by (induction w arbitrary: token) (simp_all add: dq_plain_def)

lemma shlex_squote_body:
  "shlex_run (LQuote squote) token True (quote_body d @ rest)
     = shlex_run (LQuote squote) (token @ d) True rest"
  by (induction d arbitrary: token) (simp_all add: quote_body_def sh_space_def)

lemma shlex_quote_flag:
  "shlex_run (LQuote qc) token quoted s = shlex_run (LQuote qc) token True s"
  by (cases s) simp_all

subsection \<open>The lines of the script, one kind at a time\<close>

definition mkdir_line :: "string \<Rightarrow> string" where
  "mkdir_line rel =
     ''mkdir -p '' @ [dquote] @ ''$(dirname '' @ [dquote] @ ''$DATA_DIR/'' @ rel @ [dquote] @ '')''
       @ [dquote]"

definition wget_line :: "string \<Rightarrow> string \<Rightarrow> string" where
  "wget_line url rel =
     ''wget -c --retry-connrefused -t 5 --timeout=60 '' @ [dquote] @ url @ [dquote] @ '' -O ''
       @ [dquote] @ ''$DATA_DIR/'' @ rel @ [dquote]"

definition comment_line :: "string \<Rightarrow> string" where
  "comment_line url = ''# '' @ url"

definition data_dir_line :: "string \<Rightarrow> string" where
  "data_dir_line q = ''DATA_DIR='' @ q"

definition block_lines :: "string \<times> string \<Rightarrow> string list" where
  "block_lines p = [[], comment_line (fst p), mkdir_line (snd p), wget_line (fst p) (snd p)]"

definition header_fixed :: "string list" where
  "header_fixed =
     [''#!/usr/bin/env bash'',
      ''set -Eeuo pipefail'',
      [],
      ''if ! command -v wget >/dev/null 2>&1; then'',
      ''  echo '' @ [dquote] @ ''Error: wget is not installed.'' @ [dquote] @ '' >&2'',
      ''  exit 1'',
      ''fi'',
      []]"

definition header_tail :: "string list" where
  "header_tail =
     [''echo '' @ [dquote] @ ''Saving to: $DATA_DIR'' @ [dquote],
      ''mkdir -p '' @ [dquote] @ ''$DATA_DIR'' @ [dquote]]"

definition header_lines :: "string \<Rightarrow> string list" where
  "header_lines q = header_fixed @ [data_dir_line q] @ header_tail"

lemma targets_comment_line: "targets_of_line (comment_line u) = []"
  by (simp add: comment_line_def targets_of_line_def py_strip_keeps_head py_isspace_def
      startswith_def)

lemma targets_empty_line: "targets_of_line [] = []"
  by (simp add: targets_of_line_def py_strip_def)

lemma shlex_mkdir_line:
  assumes "rel_ok r"
  shows "shlex_split (mkdir_line r) = Inr [''mkdir'', ''-p'', ''$(dirname $DATA_DIR/'' @ r @ '')'']"
proof -
  have w: "list_all word_plain r" using assms by (simp add: rel_ok_def)
  have "shlex_run LWord ''$(dirname $DATA_DIR/'' True (r @ [dquote] @ '')'' @ [dquote])
      = shlex_run LWord (''$(dirname $DATA_DIR/'' @ r) True ([dquote] @ '')'' @ [dquote])"
    by (rule shlex_word_run[OF w])
  then show ?thesis
    by (simp add: shlex_split_def mkdir_line_def sh_space_def)
qed

lemma targets_mkdir_line:
  assumes "rel_ok r"
  shows "targets_of_line (mkdir_line r) = []"
proof -
  have s: "py_strip (mkdir_line r) = mkdir_line r"
    by (rule py_strip_id) (simp_all add: mkdir_line_def py_isspace_def)
  have n: "mkdir_line r \<noteq> []" "\<not> startswith (mkdir_line r) ''#''"
    by (simp_all add: mkdir_line_def startswith_def)
  show ?thesis
    unfolding targets_of_line_def s Let_def using n
    by (simp add: shlex_mkdir_line[OF assms])
qed

lemma shlex_wget_line:
  assumes "url_ok u" and "rel_ok r"
  shows "shlex_split (wget_line u r)
     = Inr [''wget'', ''-c'', ''--retry-connrefused'', ''-t'', ''5'', ''--timeout=60'', u, ''-O'',
            ''$DATA_DIR/'' @ r]"
proof -
  have du: "list_all dq_plain u" using assms(1) by (simp add: url_ok_def list_all_iff)
  have dr: "list_all dq_plain r"
    using assms(2) by (simp add: rel_ok_def word_plain_def dq_plain_def list_all_iff)
  have a: "shlex_run (LQuote dquote) [] True (u @ rest) = shlex_run (LQuote dquote) u True rest"
    for rest
    using shlex_dquote_run[OF du, of "[]" rest] by simp
  have b: "shlex_run (LQuote dquote) ''$DATA_DIR/'' True (r @ rest)
      = shlex_run (LQuote dquote) (''$DATA_DIR/'' @ r) True rest" for rest
    by (rule shlex_dquote_run[OF dr])
  show ?thesis
    by (simp add: shlex_split_def wget_line_def sh_space_def a b)
qed

lemma targets_wget_line:
  assumes "url_ok u" and "rel_ok r"
  shows "targets_of_line (wget_line u r) = [''$DATA_DIR/'' @ r]"
proof -
  have s: "py_strip (wget_line u r) = wget_line u r"
    by (rule py_strip_id) (simp_all add: wget_line_def py_isspace_def)
  have n: "wget_line u r \<noteq> []" "\<not> startswith (wget_line u r) ''#''"
    by (simp_all add: wget_line_def startswith_def)
  have o: "u \<noteq> ''-O''" using assms(1) by (simp add: url_ok_def)
  show ?thesis
    unfolding targets_of_line_def s Let_def using n o
    by (simp add: shlex_wget_line[OF assms])
qed

lemma targets_block:
  assumes "pair_ok p"
  shows "concat (map targets_of_line (block_lines p)) = [''$DATA_DIR/'' @ snd p]"
proof -
  have w: "targets_of_line (wget_line (fst p) (snd p)) = [''$DATA_DIR/'' @ snd p]"
    using assms by (simp add: pair_ok_def targets_wget_line)
  have m: "targets_of_line (mkdir_line (snd p)) = []"
    using assms by (simp add: pair_ok_def targets_mkdir_line)
  show ?thesis
    unfolding block_lines_def
    by (simp only: list.map concat.simps targets_empty_line targets_comment_line m w
        append_Nil append_Nil2)
qed

lemma shell_safe_plain: "shell_safe c \<Longrightarrow> word_plain c \<and> \<not> py_isspace c"
  by (auto simp: shell_safe_def word_plain_def py_isspace_def sh_space_def is_ascii_alpha_def
      is_ascii_digit_def Let_def)

lemma shlex_data_dir_line:
  "\<exists>tok. shlex_split (data_dir_line (shlex_quote d)) = Inr [tok]"
proof -
  consider "d = []" | "d \<noteq> []" "list_all shell_safe d" | "d \<noteq> []" "\<not> list_all shell_safe d"
    by blast
  then show ?thesis
  proof cases
    case 1
    then show ?thesis
      by (simp add: data_dir_line_def shlex_quote_def shlex_split_def sh_space_def)
  next
    case 2
    have w: "list_all word_plain d"
      using 2(2) shell_safe_plain by (auto simp: list_all_iff)
    have "shlex_run LWord ''DATA_DIR='' False (d @ []) = shlex_run LWord (''DATA_DIR='' @ d) False []"
      by (rule shlex_word_run[OF w])
    then show ?thesis
      using 2 by (simp add: data_dir_line_def shlex_quote_def shlex_split_def sh_space_def)
  next
    case 3
    have "shlex_run (LQuote squote) ''DATA_DIR='' False (quote_body d @ [squote])
        = shlex_run (LQuote squote) (''DATA_DIR='' @ d) True [squote]"
      by (subst shlex_quote_flag) (rule shlex_squote_body)
    then show ?thesis
      using 3 by (simp add: data_dir_line_def shlex_quote_def shlex_split_def sh_space_def)
  qed
qed

lemma targets_data_dir_line: "targets_of_line (data_dir_line (shlex_quote d)) = []"
proof -
  obtain tok where t: "shlex_split (data_dir_line (shlex_quote d)) = Inr [tok]"
    using shlex_data_dir_line by blast
  have "\<not> py_isspace (last (data_dir_line (shlex_quote d)))"
  proof (cases "d \<noteq> [] \<and> list_all shell_safe d")
    case True
    then have "shell_safe (last d)" by (simp add: list_all_iff)
    then show ?thesis using True shell_safe_plain by (simp add: data_dir_line_def shlex_quote_def)
  next
    case False
    then show ?thesis by (auto simp: data_dir_line_def shlex_quote_def py_isspace_def)
  qed
  then have s: "py_strip (data_dir_line (shlex_quote d)) = data_dir_line (shlex_quote d)"
    by (intro py_strip_id) (simp_all add: data_dir_line_def py_isspace_def)
  have n: "data_dir_line (shlex_quote d) \<noteq> []" "\<not> startswith (data_dir_line (shlex_quote d)) ''#''"
    by (simp_all add: data_dir_line_def startswith_def)
  show ?thesis
    unfolding targets_of_line_def s Let_def using n by (simp add: t)
qed

lemma targets_header_fixed: "concat (map targets_of_line header_fixed) = []"
  by (simp add: header_fixed_def targets_of_line_def py_strip_def py_isspace_def startswith_def
      shlex_split_def sh_space_def)

lemma targets_header_tail: "concat (map targets_of_line header_tail) = []"
  by (simp add: header_tail_def targets_of_line_def py_strip_def py_isspace_def startswith_def
      shlex_split_def sh_space_def)

lemma targets_header: "concat (map targets_of_line (header_lines (shlex_quote d))) = []"
  unfolding header_lines_def
  by (simp only: map_append concat_append targets_header_fixed targets_header_tail list.map
      concat.simps targets_data_dir_line append_Nil)

subsection \<open>The script as a list of lines\<close>

definition with_LF :: "string list \<Rightarrow> string" where
  "with_LF ls = concat (map (\<lambda>l. l @ [LF]) ls)"

lemma HEADER_lines: "HEADER q = with_LF (header_lines q)"
  by (simp add: HEADER_def with_LF_def header_lines_def header_fixed_def header_tail_def
      data_dir_line_def)

lemma LINE_lines: "LINE (fst p) (snd p) = with_LF (block_lines p)"
  by (simp add: LINE_def with_LF_def block_lines_def comment_line_def mkdir_line_def
      wget_line_def)

lemma with_LF_append: "with_LF (xs @ ys) = with_LF xs @ with_LF ys"
  by (simp add: with_LF_def)

lemma script_text_lines:
  "script_text d pairs = with_LF (header_lines (shlex_quote d) @ concat (map block_lines pairs))"
proof -
  have "concat (map (\<lambda>p. LINE (fst p) (snd p)) pairs) = with_LF (concat (map block_lines pairs))"
    by (induction pairs) (simp_all add: with_LF_append LINE_lines, simp add: with_LF_def)
  then show ?thesis
    by (simp add: script_text_def HEADER_lines with_LF_append)
qed

lemma file_lines_with_LF:
  "list_all (list_all no_break) ls \<Longrightarrow> file_lines (with_LF ls @ rest) = ls @ file_lines rest"
proof (induction ls)
  case Nil
  then show ?case by (simp add: with_LF_def)
next
  case (Cons l ls)
  have "with_LF (l # ls) @ rest = l @ LF # (with_LF ls @ rest)"
    by (simp add: with_LF_def)
  then show ?case using Cons by (simp add: file_lines_line)
qed

lemma file_lines_with_LF_all:
  "list_all (list_all no_break) ls \<Longrightarrow> file_lines (with_LF ls) = ls"
  using file_lines_with_LF[of ls "[]"] by (simp add: file_lines_def)

lemma quote_body_no_break: "list_all no_break d \<Longrightarrow> list_all no_break (quote_body d)"
  by (induction d) (simp_all add: quote_body_def no_break_def)

lemma header_no_break:
  assumes "dir_ok d"
  shows "list_all (list_all no_break) (header_lines (shlex_quote d))"
proof -
  have q: "list_all no_break (shlex_quote d)"
    using assms quote_body_no_break[of d]
    by (simp add: shlex_quote_def dir_ok_def) (simp add: no_break_def)
  have f: "list_all (list_all no_break) header_fixed"
    by (simp add: header_fixed_def no_break_def)
  have t: "list_all (list_all no_break) header_tail"
    by (simp add: header_tail_def no_break_def)
  have dl: "list_all no_break (data_dir_line (shlex_quote d))"
    using q by (simp add: data_dir_line_def) (simp add: no_break_def)
  show ?thesis
    unfolding header_lines_def using f t dl by simp
qed

definition pair_unbroken :: "string \<times> string \<Rightarrow> bool" where
  "pair_unbroken p = (list_all no_break (fst p) \<and> list_all no_break (snd p))"

lemma block_no_break:
  assumes "pair_unbroken p"
  shows "list_all (list_all no_break) (block_lines p)"
proof -
  have u: "list_all no_break (fst p)" and r: "list_all no_break (snd p)"
    using assms by (simp_all add: pair_unbroken_def)
  have c: "list_all no_break (comment_line (fst p))"
    using u by (simp add: comment_line_def) (simp add: no_break_def)
  have m: "list_all no_break (mkdir_line (snd p))"
    using r by (simp add: mkdir_line_def) (simp add: no_break_def)
  have w: "list_all no_break (wget_line (fst p) (snd p))"
    using u r by (simp add: wget_line_def) (simp add: no_break_def)
  show ?thesis
    unfolding block_lines_def using c m w by simp
qed

lemma blocks_no_break:
  "list_all pair_unbroken pairs \<Longrightarrow> list_all (list_all no_break) (concat (map block_lines pairs))"
  by (induction pairs) (simp_all add: block_no_break)

lemma file_lines_script:
  assumes "dir_ok d" and "list_all pair_unbroken pairs"
  shows "file_lines (script_text d pairs)
     = header_lines (shlex_quote d) @ concat (map block_lines pairs)"
  unfolding script_text_lines
  using header_no_break[OF assms(1)] blocks_no_break[OF assms(2)]
  by (intro file_lines_with_LF_all) simp

lemma extract_targets_blocks:
  assumes "dir_ok d" and "list_all pair_unbroken pairs"
  shows "extract_targets_from_sh (script_text d pairs)
     = concat (map (\<lambda>p. concat (map targets_of_line (block_lines p))) pairs)"
proof -
  have "concat (map targets_of_line (concat (map block_lines pairs)))
      = concat (map (\<lambda>p. concat (map targets_of_line (block_lines p))) pairs)"
    by (induction pairs) simp_all
  then show ?thesis
    by (simp add: extract_targets_from_sh_def file_lines_script[OF assms] targets_header)
qed

lemma pair_ok_unbroken: "pair_ok p \<Longrightarrow> pair_unbroken p"
  by (auto simp: pair_ok_def pair_unbroken_def url_ok_def rel_ok_def word_plain_def
      no_break_def sh_space_def list_all_iff)

lemma extract_targets_script:
  assumes "dir_ok d" and "list_all pair_ok pairs"
  shows "extract_targets_from_sh (script_text d pairs) = map (\<lambda>p. ''$DATA_DIR/'' @ snd p) pairs"
proof -
  have u: "list_all pair_unbroken pairs"
    using assms(2) pair_ok_unbroken by (auto simp: list_all_iff)
  have "concat (map (\<lambda>p. concat (map targets_of_line (block_lines p))) pairs)
      = map (\<lambda>p. ''$DATA_DIR/'' @ snd p) pairs"
    using assms(2) by (induction pairs) (simp_all add: targets_block)
  then show ?thesis
    by (simp add: extract_targets_blocks[OF assms(1) u])
qed



subsection \<open>The round trip\<close>





subsection \<open>Four targets, two of them present\<close>

definition abcd_pairs :: "(string \<times> string) list" where
  "abcd_pairs =
     [(''https://h/p/A'', ''A''), (''https://h/p/B'', ''B''), (''https://h/p/C'', ''C''),
      (''https://h/p/D'', ''D'')]"

definition abcd_fs :: fsys where
  "abcd_fs =
     \<lparr>is_file = (\<lambda>p. p = ''/data/B'' \<or> p = ''/data/D''), resolve = (\<lambda>p. p),
      mtime = (\<lambda>p. if p = ''/data/B'' then 9 else 1)\<rparr>"

definition abcd_report :: report where
  "abcd_report =
     \<lparr>total_unique = 4, n_existing = 2, n_missing = 2,
      missing = [(''A'', ''/data/A''), (''C'', ''/data/C'')],
      last_existing = Some (''D'', ''/data/D'')\<rparr>"

lemma abcd_targets:
  "extract_targets_from_sh (script_text ''/data'' abcd_pairs)
     = [''$DATA_DIR/A'', ''$DATA_DIR/B'', ''$DATA_DIR/C'', ''$DATA_DIR/D'']"
proof -
  have d: "dir_ok ''/data''" by (simp add: dir_ok_def no_break_def)
  have ok: "list_all pair_ok abcd_pairs"
    by (simp add: abcd_pairs_def pair_ok_def url_ok_def rel_ok_def dq_plain_def no_break_def
        word_plain_def sh_space_def)
  show ?thesis
    using extract_targets_script[OF d ok] by (simp add: abcd_pairs_def)
qed

lemma abcd_filter_loop:
  "filter_loop fs ''/data'' [] [''$DATA_DIR/A'', ''$DATA_DIR/B'', ''$DATA_DIR/C'', ''$DATA_DIR/D'']
     = [(''A'', Some ''/data/A''), (''B'', Some ''/data/B''), (''C'', Some ''/data/C''),
        (''D'', Some ''/data/D'')]"
  by (simp add: normalize_to_relative_def startswith_def path_join_def path_str_def
      path_root_def path_parts_def Let_def)

lemma abcd_unique:
  "unique_loop [] [(''A'', Some ''/data/A''), (''B'', Some ''/data/B''), (''C'', Some ''/data/C''),
        (''D'', Some ''/data/D'')]
     = [(''A'', Some ''/data/A''), (''B'', Some ''/data/B''), (''C'', Some ''/data/C''),
        (''D'', Some ''/data/D'')]"
  by simp

lemma abcd_run: "ct_main abcd_fs ''/data'' [] (script_text ''/data'' abcd_pairs) = Returns abcd_report"
proof -
  have ex: "existing_of abcd_fs ''/data'' [(''A'', Some ''/data/A''), (''B'', Some ''/data/B''),
        (''C'', Some ''/data/C''), (''D'', Some ''/data/D'')]
      = [(''B'', ''/data/B''), (''D'', ''/data/D'')]"
    by (simp add: existing_of_def abs_of_def abcd_fs_def)
  have mi: "missing_of abcd_fs ''/data'' [(''A'', Some ''/data/A''), (''B'', Some ''/data/B''),
        (''C'', Some ''/data/C''), (''D'', Some ''/data/D'')]
      = [(''A'', ''/data/A''), (''C'', ''/data/C'')]"
    by (simp add: missing_of_def abs_of_def abcd_fs_def)
  show ?thesis
    by (simp add: ct_main_def Let_def abcd_targets abcd_filter_loop abcd_unique ex mi
        abcd_report_def del: filter_loop.simps unique_loop.simps)
qed

lemma abcd_none:
  "ct_main (abcd_fs\<lparr>is_file := (\<lambda>p. False)\<rparr>) ''/data'' [] (script_text ''/data'' abcd_pairs)
     = Returns \<lparr>total_unique = 4, n_existing = 0, n_missing = 4,
         missing = [(''A'', ''/data/A''), (''B'', ''/data/B''), (''C'', ''/data/C''),
                    (''D'', ''/data/D'')],
         last_existing = None\<rparr>"
proof -
  have ex: "existing_of (abcd_fs\<lparr>is_file := (\<lambda>p. False)\<rparr>) ''/data'' U = []" for U
    by (simp add: existing_of_def)
  have mi: "missing_of (abcd_fs\<lparr>is_file := (\<lambda>p. False)\<rparr>) ''/data''
        [(''A'', Some ''/data/A''), (''B'', Some ''/data/B''),
        (''C'', Some ''/data/C''), (''D'', Some ''/data/D'')]
      = [(''A'', ''/data/A''), (''B'', ''/data/B''), (''C'', ''/data/C''), (''D'', ''/data/D'')]"
    by (simp add: missing_of_def abs_of_def)
  show ?thesis
    by (simp add: ct_main_def Let_def abcd_targets abcd_filter_loop abcd_unique ex mi
        del: filter_loop.simps unique_loop.simps)
qed

theorem last_existing_by_script_order_witness:
  "ct_main abcd_fs ''/data'' [] (script_text ''/data'' abcd_pairs) = Returns abcd_report
   \<and> last_existing abcd_report = Some (''D'', ''/data/D'')
   \<and> is_last_existing abcd_fs ''/data''
       (unique_loop [] (filter_loop abcd_fs ''/data'' []
          (extract_targets_from_sh (script_text ''/data'' abcd_pairs))))
       (last_existing abcd_report)
   \<and> ct_main (abcd_fs\<lparr>mtime := (\<lambda>p. 0)\<rparr>) ''/data'' [] (script_text ''/data'' abcd_pairs)
       = Returns abcd_report
   \<and> ct_main (abcd_fs\<lparr>is_file := (\<lambda>p. False)\<rparr>) ''/data'' [] (script_text ''/data'' abcd_pairs)
       = Returns \<lparr>total_unique = 4, n_existing = 0, n_missing = 4,
           missing = [(''A'', ''/data/A''), (''B'', ''/data/B''), (''C'', ''/data/C''),
                      (''D'', ''/data/D'')],
           last_existing = None\<rparr>"
  using last_existing_by_script_order [of abcd_fs "''/data''" "[]"
      "script_text ''/data'' abcd_pairs" abcd_report "\<lambda>p. 0"] abcd_run abcd_none
  by (simp add: abcd_report_def)

end
